theory Spec2Isabelle
  imports
    Complex_Main
    "HOL-Library.Char_ord"
    "HOL-Library.List_Lexorder"
    "HOL-Library.Product_Lexorder"
begin

section \<open>Values, exceptions and library calls\<close>

text \<open>
  The program of \<^verbatim>\<open>target_netsuite/__init__.py\<close> reads a CSV file with pandas
  and turns each group of rows into a journal entry.  The cells of a frame read by
  \<^verbatim>\<open>pd.read_csv\<close> are strings, integers, floats or NaN (an empty field);
  \<^verbatim>\<open>row.get\<close> on a missing column gives \<^verbatim>\<open>None\<close>.  A finite float is the
  rational number it denotes.  NaN is a value of its own, and the one value for which
  it matters which object holds it: a NaN equals nothing under \<^verbatim>\<open>==\<close>, itself
  included, while the comparison of two dicts takes a value that is the same object
  for equal.  So \<open>VNaN n\<close> is the float object number \<open>n\<close> holding NaN: two cells
  hold the same object exactly when they carry the same number.  Which cells share
  their object is pandas' doing (the empty cells of a column of strings all hold the
  one object \<^verbatim>\<open>np.nan\<close>), and the model takes it from the input.
\<close>

datatype pyval = VNone | VStr string | VInt int | VFloat rat | VNaN nat

text \<open>Python truthiness: \<^verbatim>\<open>None\<close>, the empty string and zero are false, NaN is true.\<close>

fun truthy :: "pyval \<Rightarrow> bool" where
  "truthy VNone = False"
| "truthy (VStr s) = (s \<noteq> [])"
| "truthy (VInt i) = (i \<noteq> 0)"
| "truthy (VFloat q) = (q \<noteq> 0)"
| "truthy (VNaN n) = True"

text \<open>
  Python \<^verbatim>\<open>==\<close>: numbers compare by value, NaN equals nothing, not even the
  same object.
\<close>

fun py_eq :: "pyval \<Rightarrow> pyval \<Rightarrow> bool" where
  "py_eq VNone VNone = True"
| "py_eq (VStr a) (VStr b) = (a = b)"
| "py_eq (VInt i) (VInt j) = (i = j)"
| "py_eq (VInt i) (VFloat q) = (of_int i = q)"
| "py_eq (VFloat q) (VInt i) = (q = of_int i)"
| "py_eq (VFloat p) (VFloat q) = (p = q)"
| "py_eq _ _ = False"

text \<open>
  How the comparison of two dicts compares two values: they are the same object, or
  they are equal under \<^verbatim>\<open>==\<close>.  Every value but
  NaN equals itself under \<^verbatim>\<open>==\<close>, so the first disjunct decides only for two
  NaNs, where it says that they are the same object.
\<close>

definition py_is_or_eq :: "pyval \<Rightarrow> pyval \<Rightarrow> bool" where
  "py_is_or_eq a b = (a = b \<or> py_eq a b)"

datatype exn =
    KeyError string
  | IndexError
  | TypeError
  | AttributeError
  | UnboundLocalError string
  | ValueError
  | RuntimeError
  | GenericException string
  | SystemExit int

text \<open>What a call that may raise returns: \<open>Inl\<close> the exception, \<open>Inr\<close> the value.\<close>

fun exn_bind :: "exn + 'a \<Rightarrow> ('a \<Rightarrow> exn + 'b) \<Rightarrow> exn + 'b" where
  "exn_bind (Inl e) f = Inl e"
| "exn_bind (Inr v) f = f v"

datatype timestamp = NaT | Timestamp int

text \<open>
  Three library calls are parameters of the model: \<^verbatim>\<open>round(v, 2)\<close> and
  \<^verbatim>\<open>str(v)\<close> on a float (floating point), and \<^verbatim>\<open>pd.to_datetime\<close>, which
  may raise on a cell it cannot parse.
\<close>

record builtins =
  float_round2 :: "rat \<Rightarrow> rat"
  float_str :: "rat \<Rightarrow> string"
  to_datetime :: "pyval \<Rightarrow> exn + timestamp"

text \<open>\<^verbatim>\<open>str\<close> of an integer: its decimal digits.\<close>

fun str_nat :: "nat \<Rightarrow> string" where
  "str_nat n = (if n < 10 then [char_of (48 + n)] else str_nat (n div 10) @ [char_of (48 + n mod 10)])"

declare str_nat.simps [simp del]

definition str_int :: "int \<Rightarrow> string" where
  "str_int i = (if i < 0 then CHR ''-'' # str_nat (nat (- i)) else str_nat (nat i))"

fun py_str :: "builtins \<Rightarrow> pyval \<Rightarrow> string" where
  "py_str b VNone = ''None''"
| "py_str b (VStr s) = s"
| "py_str b (VInt i) = str_int i"
| "py_str b (VFloat q) = float_str b q"
| "py_str b (VNaN n) = ''nan''"

text \<open>
  \<^verbatim>\<open>round(v, 2)\<close>: an integer is returned as it is, NaN stays NaN, a string or
  \<^verbatim>\<open>None\<close> raises TypeError.  The program compares no rounded amount with
  anything, so which object holds a rounded NaN is not observed; the model keeps the
  number of the argument.
\<close>

fun py_round2 :: "builtins \<Rightarrow> pyval \<Rightarrow> exn + pyval" where
  "py_round2 b (VInt i) = Inr (VInt i)"
| "py_round2 b (VFloat q) = Inr (VFloat (float_round2 b q))"
| "py_round2 b (VNaN n) = Inr (VNaN n)"
| "py_round2 b (VStr s) = Inl TypeError"
| "py_round2 b VNone = Inl TypeError"

text \<open>
  \<^verbatim>\<open>s.split(sep)\<close> for a non-empty separator: the segments between the
  occurrences of \<open>sep\<close>, found from the left; \<open>cur\<close> is the segment being read, reversed.
\<close>

function py_split_aux :: "string \<Rightarrow> string \<Rightarrow> string \<Rightarrow> string list" where
  "py_split_aux sep cur [] = [rev cur]"
| "py_split_aux sep cur (c # s) =
     (if sep \<noteq> [] \<and> take (length sep) (c # s) = sep
      then rev cur # py_split_aux sep [] (drop (length sep) (c # s))
      else py_split_aux sep (c # cur) s)"
  by pat_completeness auto
termination
  by (relation "measure (\<lambda>(sep, cur, s). length s)") auto

definition py_split :: "string \<Rightarrow> string \<Rightarrow> string list" where
  "py_split s sep = py_split_aux sep [] s"

text \<open>\<^verbatim>\<open>v in segs\<close> for a list of strings.\<close>

definition py_in :: "pyval \<Rightarrow> string list \<Rightarrow> bool" where
  "py_in v segs = list_ex (\<lambda>s. py_eq v (VStr s)) segs"

definition opt_str :: "string option \<Rightarrow> pyval" where
  "opt_str x = (case x of None \<Rightarrow> VNone | Some s \<Rightarrow> VStr s)"

section \<open>Rows and frames\<close>

type_synonym row = "string \<Rightarrow> pyval option"

record dataframe =
  columns :: "string list"
  rows :: "row list"

text \<open>\<^verbatim>\<open>row.get(k)\<close>, \<^verbatim>\<open>row[k]\<close> and \<^verbatim>\<open>x[k].iloc[0]\<close>.\<close>

definition row_get :: "row \<Rightarrow> string \<Rightarrow> pyval" where
  "row_get r k = (case r k of None \<Rightarrow> VNone | Some v \<Rightarrow> v)"

definition row_item :: "row \<Rightarrow> string \<Rightarrow> exn + pyval" where
  "row_item r k = (case r k of None \<Rightarrow> Inl (KeyError k) | Some v \<Rightarrow> Inr v)"

definition iloc0 :: "dataframe \<Rightarrow> string \<Rightarrow> exn + pyval" where
  "iloc0 x k =
     (if k \<notin> set (columns x) then Inl (KeyError k)
      else case rows x of [] \<Rightarrow> Inl IndexError | r # _ \<Rightarrow> row_item r k)"

section \<open>Reference data\<close>

text \<open>
  The records of the five reference collections, with the fields the program reads.
  A field the service left out is \<^verbatim>\<open>None\<close>.
\<close>

record recordRef =
  sub_name :: pyval
  sub_internalId :: pyval
  sub_externalId :: pyval
  sub_type :: pyval

record account_rec =
  acctNumber :: "string option"
  acctName :: "string option"
  acct_externalId :: "string option"
  acct_internalId :: "string option"
  subsidiaryList :: "recordRef list option"

record ns_record =
  rec_name :: "string option"
  rec_externalId :: "string option"
  rec_internalId :: "string option"

record currency_rec =
  symbol :: "string option"
  cur_externalId :: "string option"
  cur_internalId :: "string option"

text \<open>\<open>None\<close>: the collection is not a key of \<^verbatim>\<open>reference_data\<close> (its fetch failed).\<close>

record ref_data =
  Accounts :: "account_rec list option"
  Classifications :: "ns_record list option"
  Departments :: "ns_record list option"
  Locations :: "ns_record list option"
  Currencies :: "currency_rec list option"

text \<open>\<^verbatim>\<open>ref_data.get(k)\<close> as a condition, and \<^verbatim>\<open>ref_data[k]\<close> behind it.\<close>

fun truthy_list :: "'a list option \<Rightarrow> bool" where
  "truthy_list None = False"
| "truthy_list (Some []) = False"
| "truthy_list (Some (a # as)) = True"

fun the_list :: "'a list option \<Rightarrow> 'a list" where
  "the_list None = []"
| "the_list (Some l) = l"

section \<open>Journal entries\<close>

record reference =
  ref_name :: "string option"
  ref_externalId :: "string option"
  ref_internalId :: "string option"

text \<open>A line is a dict; a key that was never assigned is \<open>None\<close>.\<close>

record line =
  account :: reference
  class_ref :: "reference option"
  department :: "reference option"
  location :: "reference option"
  credit :: "pyval option"
  debit :: "pyval option"
  memo :: "pyval option"

record journal_entry =
  createdDate :: "timestamp option"
  tranDate :: "timestamp option"
  externalId :: pyval
  lineList :: "line list"
  currency :: "reference option"
  subsidiary :: "recordRef option"
  toSubsidiary :: "recordRef option"

datatype log_event =
    Warning_invalid_account string
  | Error_missing_cols "string list" "string list"
  | Info_loaded nat

section \<open>The loop of \<^verbatim>\<open>build_lines\<close>\<close>

text \<open>
  The line dicts live in a heap, since the program can append one dict to
  \<^verbatim>\<open>line_items\<close> twice and assign to it afterwards: \<open>line_items\<close> holds addresses,
  \<open>journal_entry_line\<close> is the address the variable is bound to (\<open>None\<close> before its
  first assignment), \<open>subs_subsidiary\<close> and \<open>subs_toSubsidiary\<close> are the two keys of
  the dict \<^verbatim>\<open>subsidiaries\<close>, and \<open>logged\<close> collects the logger's records.
\<close>

record st =
  heap :: "line list"
  line_items :: "nat list"
  journal_entry_line :: "nat option"
  subs_subsidiary :: "recordRef option"
  subs_toSubsidiary :: "recordRef option"
  logged :: "log_event list"

definition init_st :: st where
  "init_st = \<lparr>heap = [], line_items = [], journal_entry_line = None,
     subs_subsidiary = None, subs_toSubsidiary = None, logged = []\<rparr>"

text \<open>
  \<^verbatim>\<open>journal_entry_line[key] = v\<close>: the variable must be bound.  It is only ever
  bound to the line that was just added to the heap, so the address is one of the heap
  (part of the invariant \<open>memo_inv\<close> below).
\<close>

definition assign :: "(line \<Rightarrow> line) \<Rightarrow> st \<Rightarrow> exn + st" where
  "assign f s =
     (case journal_entry_line s of
        None \<Rightarrow> Inl (UnboundLocalError ''journal_entry_line'')
      | Some a \<Rightarrow> Inr (s\<lparr>heap := (heap s)[a := f (heap s ! a)]\<rparr>))"

datatype flow = Skip st | Go st

text \<open>Lines 116 to 140: the account reference and the subsidiaries.\<close>

definition acct_lookup :: "builtins \<Rightarrow> ref_data \<Rightarrow> row \<Rightarrow> account_rec list" where
  "acct_lookup b rd r =
     filter (\<lambda>a. acctNumber a = Some (py_str b (row_get r ''Account Number'')))
       (the_list (Accounts rd))"

definition new_line :: "account_rec \<Rightarrow> line" where
  "new_line a =
     \<lparr>account = \<lparr>ref_name = acctName a, ref_externalId = acct_externalId a,
                   ref_internalId = acct_internalId a\<rparr>,
      class_ref = None, department = None, location = None,
      credit = None, debit = None, memo = None\<rparr>"

definition derive_subsidiary :: "account_rec \<Rightarrow> row \<Rightarrow> exn + recordRef option" where
  "derive_subsidiary a r =
     (if truthy (row_get r ''Subsidiary'')
      then Inr (Some \<lparr>sub_name = VNone, sub_internalId = row_get r ''Subsidiary'',
                       sub_externalId = VNone, sub_type = VNone\<rparr>)
      else case subsidiaryList a of
             None \<Rightarrow> Inl TypeError
           | Some l \<Rightarrow> Inr (case l of [] \<Rightarrow> None | x # _ \<Rightarrow> Some x))"

definition record_subsidiary :: "row \<Rightarrow> recordRef option \<Rightarrow> st \<Rightarrow> st" where
  "record_subsidiary r sub s =
     (case sub of
        None \<Rightarrow> s
      | Some d \<Rightarrow>
          if py_eq (row_get r ''Posting Type'') (VStr ''Credit'')
          then s\<lparr>subs_toSubsidiary := Some d\<rparr>
          else if py_eq (row_get r ''Posting Type'') (VStr ''Debit'')
          then s\<lparr>subs_subsidiary := Some d\<rparr>
          else s)"

definition account_part :: "builtins \<Rightarrow> ref_data \<Rightarrow> row \<Rightarrow> st \<Rightarrow> exn + flow" where
  "account_part b rd r s =
     (if truthy_list (Accounts rd) \<and> truthy (row_get r ''Account Number'')
      then case acct_lookup b rd r of
             [] \<Rightarrow> Inr (Skip (s\<lparr>logged := logged s @
                       [Warning_invalid_account (py_str b (row_get r ''Account Number''))]\<rparr>))
           | a # _ \<Rightarrow>
               exn_bind (derive_subsidiary a r) (\<lambda>sub.
                 Inr (Go (record_subsidiary r sub
                   (s\<lparr>heap := heap s @ [new_line a],
                      journal_entry_line := Some (length (heap s))\<rparr>))))
      else Inr (Go s))"

text \<open>
  Lines 143 to 162: the records whose name, split at \<^verbatim>\<open>" - "\<close>, has the cell
  among its segments.  \<^verbatim>\<open>d["name"].split\<close> raises when the name is \<^verbatim>\<open>None\<close>.
\<close>

fun token_filter :: "pyval \<Rightarrow> ns_record list \<Rightarrow> exn + ns_record list" where
  "token_filter v [] = Inr []"
| "token_filter v (d # ds) =
     (case rec_name d of
        None \<Rightarrow> Inl AttributeError
      | Some n \<Rightarrow>
          exn_bind (token_filter v ds) (\<lambda>m.
            Inr (if py_in v (py_split n '' - '') then d # m else m)))"

definition ref_of :: "ns_record \<Rightarrow> reference" where
  "ref_of d = \<lparr>ref_name = rec_name d, ref_externalId = rec_externalId d,
               ref_internalId = rec_internalId d\<rparr>"

definition class_part :: "ref_data \<Rightarrow> row \<Rightarrow> st \<Rightarrow> exn + st" where
  "class_part rd r s =
     (if truthy_list (Classifications rd) \<and> truthy (row_get r ''Class'')
      then exn_bind (token_filter (row_get r ''Class'') (the_list (Classifications rd)))
             (\<lambda>class_data. case class_data of
                [] \<Rightarrow> Inr s
              | d # _ \<Rightarrow> assign (\<lambda>l. l\<lparr>class_ref := Some (ref_of d)\<rparr>) s)
      else Inr s)"

definition department_part :: "ref_data \<Rightarrow> row \<Rightarrow> st \<Rightarrow> exn + st" where
  "department_part rd r s =
     (if truthy_list (Departments rd) \<and> truthy (row_get r ''Department'')
      then exn_bind (token_filter (row_get r ''Department'') (the_list (Departments rd)))
             (\<lambda>dept_data. case dept_data of
                [] \<Rightarrow> Inr s
              | d # _ \<Rightarrow> assign (\<lambda>l. l\<lparr>department := Some (ref_of d)\<rparr>) s)
      else Inr s)"

text \<open>Lines 165 to 173: the location whose name equals the cell.\<close>

definition location_part :: "ref_data \<Rightarrow> row \<Rightarrow> st \<Rightarrow> exn + st" where
  "location_part rd r s =
     (if truthy_list (Locations rd) \<and> truthy (row_get r ''Location'')
      then case filter (\<lambda>l. py_eq (opt_str (rec_name l)) (row_get r ''Location''))
                  (the_list (Locations rd)) of
             [] \<Rightarrow> Inr s
           | d # _ \<Rightarrow> assign (\<lambda>l. l\<lparr>location := Some (ref_of d)\<rparr>) s
      else Inr s)"

text \<open>
  Lines 176 to 179.  The right-hand side \<^verbatim>\<open>round(row["Amount"], 2)\<close> is evaluated
  before the variable \<^verbatim>\<open>journal_entry_line\<close> is read.
\<close>

definition amount_part :: "builtins \<Rightarrow> row \<Rightarrow> st \<Rightarrow> exn + st" where
  "amount_part b r s =
     exn_bind (row_item r ''Posting Type'') (\<lambda>pt.
       if py_eq pt (VStr ''Credit'')
       then exn_bind (row_item r ''Amount'') (\<lambda>amt.
              exn_bind (py_round2 b amt) (\<lambda>v. assign (\<lambda>l. l\<lparr>credit := Some v\<rparr>) s))
       else if py_eq pt (VStr ''Debit'')
       then exn_bind (row_item r ''Amount'') (\<lambda>amt.
              exn_bind (py_round2 b amt) (\<lambda>v. assign (\<lambda>l. l\<lparr>debit := Some v\<rparr>) s))
       else Inr s)"

text \<open>Lines 182 and 183.\<close>

definition memo_part :: "dataframe \<Rightarrow> st \<Rightarrow> exn + st" where
  "memo_part x s =
     (if ''Description'' \<in> set (columns x)
      then exn_bind (iloc0 x ''Description'') (\<lambda>v. assign (\<lambda>l. l\<lparr>memo := Some v\<rparr>) s)
      else Inr s)"

text \<open>Line 185.\<close>

definition append_part :: "st \<Rightarrow> exn + st" where
  "append_part s =
     (case journal_entry_line s of
        None \<Rightarrow> Inl (UnboundLocalError ''journal_entry_line'')
      | Some a \<Rightarrow> Inr (s\<lparr>line_items := line_items s @ [a]\<rparr>))"

text \<open>One iteration of the loop; \<^verbatim>\<open>continue\<close> ends it with the state as it is.\<close>

definition row_body :: "builtins \<Rightarrow> dataframe \<Rightarrow> ref_data \<Rightarrow> row \<Rightarrow> st \<Rightarrow> exn + st" where
  "row_body b x rd r s =
     exn_bind (account_part b rd r s) (\<lambda>fl.
       case fl of
         Skip s' \<Rightarrow> Inr s'
       | Go s1 \<Rightarrow>
           exn_bind (class_part rd r s1) (\<lambda>s2.
           exn_bind (department_part rd r s2) (\<lambda>s3.
           exn_bind (location_part rd r s3) (\<lambda>s4.
           exn_bind (amount_part b r s4) (\<lambda>s5.
           exn_bind (memo_part x s5) append_part)))))"

text \<open>
  The loop over \<^verbatim>\<open>x.iterrows()\<close>.  An exception ends it; what had been logged
  stays logged.
\<close>

fun iterrows_loop ::
  "builtins \<Rightarrow> dataframe \<Rightarrow> ref_data \<Rightarrow> row list \<Rightarrow> st \<Rightarrow> (exn \<times> log_event list) + st" where
  "iterrows_loop b x rd [] s = Inr s"
| "iterrows_loop b x rd (r # rs) s =
     (case row_body b x rd r s of
        Inl e \<Rightarrow> Inl (e, logged s)
      | Inr s' \<Rightarrow> iterrows_loop b x rd rs s')"

section \<open>After the loop\<close>

text \<open>
  Lines 188 to 200.  \<^verbatim>\<open>row\<close> is the variable the loop left behind: the last row
  of the group, unbound when the group has no row.  A currency record is read as the
  code reads it, by subscript and by \<^verbatim>\<open>.get\<close>.  The result is the binding of
  \<^verbatim>\<open>currency_ref\<close>: \<open>None\<close> when the variable was never assigned, \<open>Some None\<close>
  when it was assigned \<^verbatim>\<open>None\<close>.
\<close>

definition currency_lookup :: "ref_data \<Rightarrow> row \<Rightarrow> currency_rec list" where
  "currency_lookup rd r =
     filter (\<lambda>c. py_eq (opt_str (symbol c)) (row_get r ''Currency''))
       (the_list (Currencies rd))"

definition currency_part :: "ref_data \<Rightarrow> row list \<Rightarrow> exn + reference option option" where
  "currency_part rd rs =
     (if truthy_list (Currencies rd)
      then if rs = [] then Inl (UnboundLocalError ''row'')
           else if truthy (row_get (last rs) ''Currency'')
           then case currency_lookup rd (last rs) of
                  [] \<Rightarrow> Inr None
                | c # _ \<Rightarrow> Inr (Some (Some \<lparr>ref_name = symbol c,
                              ref_externalId = cur_externalId c,
                              ref_internalId = cur_internalId c\<rparr>))
           else Inr (Some None)
      else Inr (Some None))"

text \<open>
  Lines 203 to 205: two dicts with the same four keys are equal when, key by key,
  their values are the same object or equal.
\<close>

definition recordRef_eq :: "recordRef \<Rightarrow> recordRef \<Rightarrow> bool" where
  "recordRef_eq p q =
     (py_is_or_eq (sub_name p) (sub_name q) \<and>
      py_is_or_eq (sub_internalId p) (sub_internalId q) \<and>
      py_is_or_eq (sub_externalId p) (sub_externalId q) \<and>
      py_is_or_eq (sub_type p) (sub_type q))"

definition collapse :: "st \<Rightarrow> st" where
  "collapse s =
     (case (subs_subsidiary s, subs_toSubsidiary s) of
        (Some p, Some q) \<Rightarrow> if recordRef_eq p q then s\<lparr>subs_toSubsidiary := None\<rparr> else s
      | _ \<Rightarrow> s)"

text \<open>Lines 207 to 210.\<close>

definition created_date :: "builtins \<Rightarrow> dataframe \<Rightarrow> exn + timestamp option" where
  "created_date b x =
     (if ''Transaction Date'' \<in> set (columns x)
      then exn_bind (iloc0 x ''Transaction Date'') (\<lambda>v.
             exn_bind (to_datetime b v) (\<lambda>t. Inr (Some t)))
      else Inr None)"

text \<open>Lines 213 to 224: the dict is built key by key, then updated with the subsidiaries.\<close>

definition finish :: "builtins \<Rightarrow> dataframe \<Rightarrow> ref_data \<Rightarrow> st \<Rightarrow> exn + journal_entry" where
  "finish b x rd s =
     exn_bind (currency_part rd (rows x)) (\<lambda>currency_ref.
     exn_bind (created_date b x) (\<lambda>cd.
     exn_bind (iloc0 x ''Journal Entry Id'') (\<lambda>eid.
       case currency_ref of
         None \<Rightarrow> Inl (UnboundLocalError ''currency_ref'')
       | Some cur \<Rightarrow>
           Inr \<lparr>createdDate = cd, tranDate = cd, externalId = eid,
                lineList = map (\<lambda>a. heap s ! a) (line_items s),
                currency = cur,
                subsidiary = subs_subsidiary (collapse s),
                toSubsidiary = subs_toSubsidiary (collapse s)\<rparr>)))"

definition build_lines ::
  "builtins \<Rightarrow> dataframe \<Rightarrow> ref_data \<Rightarrow> log_event list \<times> (exn + journal_entry)" where
  "build_lines b x rd =
     (case iterrows_loop b x rd (rows x) init_st of
        Inl (e, lg) \<Rightarrow> (lg, Inl e)
      | Inr s \<Rightarrow> (logged s, finish b x rd s))"

section \<open>Grouping and loading\<close>

text \<open>
  \<^verbatim>\<open>df.groupby([k])\<close> with the defaults of pandas (\<^verbatim>\<open>sort=True\<close>,
  \<^verbatim>\<open>dropna=True\<close>): one group for each key of the column that is not missing, the
  groups in ascending order of their keys, each group the frame's rows with that key
  in the order of the frame.  Numbers sort by value and strings by their characters.
\<close>

fun key_order :: "pyval \<Rightarrow> nat \<times> rat \<times> string" where
  "key_order (VInt i) = (0, of_int i, [])"
| "key_order (VFloat q) = (0, q, [])"
| "key_order (VStr s) = (1, 0, s)"
| "key_order VNone = (2, 0, [])"
| "key_order (VNaN n) = (2, 0, [])"

fun isna :: "pyval \<Rightarrow> bool" where
  "isna VNone = True"
| "isna (VNaN n) = True"
| "isna v = False"

definition group_keys :: "dataframe \<Rightarrow> string \<Rightarrow> pyval list" where
  "group_keys df k =
     sort_key key_order (remdups (filter (\<lambda>v. \<not> isna v) (map (\<lambda>r. row_get r k) (rows df))))"

definition groupby :: "dataframe \<Rightarrow> string \<Rightarrow> (pyval \<times> dataframe) list" where
  "groupby df k =
     map (\<lambda>v. (v, df\<lparr>rows := filter (\<lambda>r. row_get r k = v) (rows df)\<rparr>)) (group_keys df k)"

text \<open>\<^verbatim>\<open>.apply(build_lines, reference_data)\<close>: group after group, until one raises.\<close>

fun apply_build_lines ::
  "builtins \<Rightarrow> ref_data \<Rightarrow> dataframe list \<Rightarrow> log_event list \<times> (exn + journal_entry list)" where
  "apply_build_lines b rd [] = ([], Inr [])"
| "apply_build_lines b rd (g # gs) =
     (case build_lines b g rd of
        (lg, Inl e) \<Rightarrow> (lg, Inl e)
      | (lg, Inr j) \<Rightarrow>
          (case apply_build_lines b rd gs of
             (lg', Inl e) \<Rightarrow> (lg @ lg', Inl e)
           | (lg', Inr js) \<Rightarrow> (lg @ lg', Inr (j # js))))"

definition REQUIRED_COLS :: "string list" where
  "REQUIRED_COLS =
     [''Transaction Date'', ''Journal Entry Id'', ''Customer Name'', ''Class'',
      ''Account Number'', ''Account Name'', ''Posting Type'', ''Description'']"

text \<open>Lines 251 to 260: a RuntimeError becomes a plain Exception, any other one passes.\<close>

definition build_entries ::
  "builtins \<Rightarrow> dataframe \<Rightarrow> ref_data \<Rightarrow> log_event list \<times> (exn + journal_entry list)" where
  "build_entries b df rd =
     (case apply_build_lines b rd (map snd (groupby df ''Journal Entry Id'')) of
        (lg, Inl e) \<Rightarrow>
          (lg, Inl (if e = RuntimeError
                    then GenericException ''Building Netsuite JournalEntries failed!''
                    else e))
      | (lg, Inr js) \<Rightarrow> (lg @ [Info_loaded (length js)], Inr js))"

text \<open>
  Lines 233 to 249, then the rest.  \<^verbatim>\<open>sys.exit(1)\<close> is the exception
  \<open>SystemExit 1\<close>, which nothing catches.
\<close>

definition load_journal_entries ::
  "builtins \<Rightarrow> dataframe \<Rightarrow> ref_data \<Rightarrow> log_event list \<times> (exn + journal_entry list)" where
  "load_journal_entries b df rd =
     (if \<not> list_all (\<lambda>col. col \<in> set (columns df)) REQUIRED_COLS
      then ([Error_missing_cols (columns df) REQUIRED_COLS], Inl (SystemExit 1))
      else build_entries b df rd)"

section \<open>Definitions for the statements and proofs\<close>

text \<open>The segments of a record's name, none when the name is \<^verbatim>\<open>None\<close>.\<close>

definition segments :: "ns_record \<Rightarrow> string list" where
  "segments d = (case rec_name d of None \<Rightarrow> [] | Some n \<Rightarrow> py_split n '' - '')"

text \<open>
  The loop invariant behind the memo of the lines: every address in \<open>line_items\<close> is
  a line of the heap that carries the first Description of the frame, and the variable
  \<open>journal_entry_line\<close>, when bound, is an address of the heap.
\<close>

definition memo_inv :: "dataframe \<Rightarrow> st \<Rightarrow> bool" where
  "memo_inv x s \<longleftrightarrow>
     (\<forall>a \<in> set (line_items s). a < length (heap s) \<and>
        (\<exists>v. iloc0 x ''Description'' = Inr v \<and> memo (heap s ! a) = Some v)) \<and>
     (\<forall>a. journal_entry_line s = Some a \<longrightarrow> a < length (heap s))"

text \<open>
  The order the claim on grouping words: the distinct keys of the column in the order
  of their first occurrence.
\<close>

fun first_seen_keys :: "pyval list \<Rightarrow> pyval list" where
  "first_seen_keys [] = []"
| "first_seen_keys (v # vs) = v # filter (\<lambda>w. w \<noteq> v) (first_seen_keys vs)"

section \<open>Example inputs\<close>

text \<open>
  One choice of the three library calls, for the concrete runs below: rounding to the
  nearest hundredth, a float printed by its integral part, and a date parser that
  knows one date and reads a number as nanoseconds.
\<close>

definition ex_to_datetime :: "pyval \<Rightarrow> exn + timestamp" where
  "ex_to_datetime v =
     (case v of
        VInt i \<Rightarrow> Inr (Timestamp i)
      | VNaN n \<Rightarrow> Inr NaT
      | VNone \<Rightarrow> Inr NaT
      | VStr s \<Rightarrow> if s = ''1970-01-01'' then Inr (Timestamp 0) else Inl ValueError
      | VFloat q \<Rightarrow> Inr (Timestamp (floor q)))"

definition ex_builtins :: builtins where
  "ex_builtins = \<lparr>float_round2 = (\<lambda>q. of_int (round (q * 100)) / 100),
     float_str = (\<lambda>q. str_int (floor q) @ ''.0''), to_datetime = ex_to_datetime\<rparr>"

definition ex_columns :: "string list" where
  "ex_columns = [''Transaction Date'', ''Journal Entry Id'', ''Customer Name'', ''Class'',
      ''Account Number'', ''Account Name'', ''Posting Type'', ''Description'', ''Amount'',
      ''Currency'']"

text \<open>A row of the ten columns: its entry id, account number, posting type, amount and currency.\<close>

definition ex_row :: "pyval \<Rightarrow> pyval \<Rightarrow> pyval \<Rightarrow> pyval \<Rightarrow> pyval \<Rightarrow> row" where
  "ex_row je an pt am cu = map_of
     [(''Transaction Date'', VStr ''1970-01-01''), (''Journal Entry Id'', je),
      (''Customer Name'', VStr ''ACME''), (''Class'', VStr ''US''), (''Account Number'', an),
      (''Account Name'', VStr ''Cash''), (''Posting Type'', pt),
      (''Description'', VStr ''rent''), (''Amount'', am), (''Currency'', cu)]"

definition ex_frame :: "row list \<Rightarrow> dataframe" where
  "ex_frame rs = \<lparr>columns = ex_columns, rows = rs\<rparr>"

definition ex_account :: "string \<Rightarrow> recordRef list \<Rightarrow> account_rec" where
  "ex_account n subs = \<lparr>acctNumber = Some n, acctName = Some ''Cash'', acct_externalId = None,
     acct_internalId = Some ''7'', subsidiaryList = Some subs\<rparr>"

definition ex_class :: ns_record where
  "ex_class = \<lparr>rec_name = Some ''Sales - US'', rec_externalId = None, rec_internalId = Some ''3''\<rparr>"

definition ex_refs :: ref_data where
  "ex_refs = \<lparr>Accounts = Some [ex_account ''100'' []],
     Classifications = Some [ex_class],
     Departments = None, Locations = None,
     Currencies = Some [\<lparr>symbol = Some ''USD'', cur_externalId = None,
        cur_internalId = Some ''1''\<rparr>]\<rparr>"

text \<open>Two accounts whose default subsidiaries share the internal id and differ in the name.\<close>

definition ex_sub :: "string \<Rightarrow> recordRef" where
  "ex_sub n = \<lparr>sub_name = VStr n, sub_internalId = VStr ''1'', sub_externalId = VNone,
     sub_type = VNone\<rparr>"

definition ex_refs_subs :: ref_data where
  "ex_refs_subs = ex_refs\<lparr>Accounts := Some [ex_account ''100'' [ex_sub ''Parent''],
     ex_account ''200'' [ex_sub ''Parent Company'']]\<rparr>"

text \<open>A frame with a Subsidiary column, one without an Amount column, one without Description.\<close>

definition ex_frame_subsidiary :: "row list \<Rightarrow> dataframe" where
  "ex_frame_subsidiary rs = \<lparr>columns = ex_columns @ [''Subsidiary''], rows = rs\<rparr>"

text \<open>
  A Credit row and a Debit row of one entry with the Subsidiary cells \<open>c\<close> and \<open>d\<close>,
  and the reference that line 132 builds from a cell.
\<close>

definition ex_rows_subsidiary :: "pyval \<Rightarrow> pyval \<Rightarrow> row list" where
  "ex_rows_subsidiary c d =
     [(ex_row (VStr ''JE1'') (VInt 100) (VStr ''Credit'') (VInt 10) (VStr ''USD''))
        (''Subsidiary'' \<mapsto> c),
      (ex_row (VStr ''JE1'') (VInt 100) (VStr ''Debit'') (VInt 10) (VStr ''USD''))
        (''Subsidiary'' \<mapsto> d)]"

definition ex_explicit_sub :: "pyval \<Rightarrow> recordRef" where
  "ex_explicit_sub c = \<lparr>sub_name = VNone, sub_internalId = c, sub_externalId = VNone,
     sub_type = VNone\<rparr>"

definition ex_frame_no_amount :: "row list \<Rightarrow> dataframe" where
  "ex_frame_no_amount rs = \<lparr>columns = filter (\<lambda>c. c \<noteq> ''Amount'') ex_columns, rows = rs\<rparr>"

definition ex_frame_no_description :: dataframe where
  "ex_frame_no_description = \<lparr>columns = filter (\<lambda>c. c \<noteq> ''Description'') ex_columns, rows = []\<rparr>"

text \<open>The state of the loop once a first line has been built.\<close>

definition ex_st :: st where
  "ex_st = init_st\<lparr>heap := [new_line (ex_account ''100'' [])], journal_entry_line := Some 0\<rparr>"

section \<open>Lemmas on the parts of the loop\<close>

text \<open>What a successful step did to the state, and the invariant it keeps.\<close>

lemma exn_bind_Inr_iff: "exn_bind m f = Inr y \<longleftrightarrow> (\<exists>v. m = Inr v \<and> f v = Inr y)"
  by (cases m) auto

lemma exn_bind_all_Inl: "(\<And>v. \<exists>e. f v = Inl e) \<Longrightarrow> \<exists>e. exn_bind m f = Inl e"
  by (cases m) auto

lemma py_eq_VStr: "py_eq v (VStr t) \<longleftrightarrow> v = VStr t"
  by (cases v) auto

lemma py_in_iff: "py_in v segs \<longleftrightarrow> v \<in> VStr ` set segs"
  by (auto simp: py_in_def list_ex_iff py_eq_VStr)

lemma assign_Inr:
  "assign f s = Inr s' \<Longrightarrow>
     \<exists>a. journal_entry_line s = Some a \<and> s' = s\<lparr>heap := (heap s)[a := f (heap s ! a)]\<rparr>"
  by (auto simp: assign_def split: option.splits)

lemma memo_inv_init: "memo_inv x init_st"
  by (simp add: memo_inv_def init_st_def)

lemma assign_memo_inv:
  assumes "assign f s = Inr s'" and "\<And>l. memo (f l) = memo l" and "memo_inv x s"
  shows "memo_inv x s'"
proof -
  from assms(1) obtain a where a: "journal_entry_line s = Some a"
    and s': "s' = s\<lparr>heap := (heap s)[a := f (heap s ! a)]\<rparr>"
    using assign_Inr by blast
  show ?thesis
    using assms(2,3) a unfolding s' memo_inv_def
    by (auto simp: nth_list_update)
qed


lemma class_part_Inr:
  assumes "class_part rd r s = Inr s'"
  shows "s' = s \<or> (\<exists>d. assign (\<lambda>l. l\<lparr>class_ref := Some (ref_of d)\<rparr>) s = Inr s')"
proof (cases "truthy_list (Classifications rd) \<and> truthy (row_get r ''Class'')")
  case True
  then obtain m where
    "(case m of [] \<Rightarrow> Inr s | d # _ \<Rightarrow> assign (\<lambda>l. l\<lparr>class_ref := Some (ref_of d)\<rparr>) s) = Inr s'"
    using assms by (auto simp: class_part_def exn_bind_Inr_iff)
  then show ?thesis by (cases m) auto
next
  case False
  then show ?thesis using assms by (auto simp: class_part_def)
qed

lemma department_part_Inr:
  assumes "department_part rd r s = Inr s'"
  shows "s' = s \<or> (\<exists>d. assign (\<lambda>l. l\<lparr>department := Some (ref_of d)\<rparr>) s = Inr s')"
proof (cases "truthy_list (Departments rd) \<and> truthy (row_get r ''Department'')")
  case True
  then obtain m where
    "(case m of [] \<Rightarrow> Inr s | d # _ \<Rightarrow> assign (\<lambda>l. l\<lparr>department := Some (ref_of d)\<rparr>) s) = Inr s'"
    using assms by (auto simp: department_part_def exn_bind_Inr_iff)
  then show ?thesis by (cases m) auto
next
  case False
  then show ?thesis using assms by (auto simp: department_part_def)
qed

lemma location_part_Inr:
  assumes "location_part rd r s = Inr s'"
  shows "s' = s \<or> (\<exists>d. assign (\<lambda>l. l\<lparr>location := Some (ref_of d)\<rparr>) s = Inr s')"
proof (cases "truthy_list (Locations rd) \<and> truthy (row_get r ''Location'')")
  case True
  define m where "m = filter (\<lambda>l. py_eq (opt_str (rec_name l)) (row_get r ''Location''))
                  (the_list (Locations rd))"
  have "(case m of [] \<Rightarrow> Inr s | d # _ \<Rightarrow> assign (\<lambda>l. l\<lparr>location := Some (ref_of d)\<rparr>) s) = Inr s'"
    using assms True by (simp add: location_part_def m_def)
  then show ?thesis by (cases m) auto
next
  case False
  then show ?thesis using assms by (auto simp: location_part_def)
qed

lemma amount_part_Inr:
  assumes "amount_part b r s = Inr s'"
  shows "s' = s \<or> (\<exists>v. assign (\<lambda>l. l\<lparr>credit := Some v\<rparr>) s = Inr s') \<or>
         (\<exists>v. assign (\<lambda>l. l\<lparr>debit := Some v\<rparr>) s = Inr s')"
  using assms by (auto simp: amount_part_def exn_bind_Inr_iff split: if_splits)

lemma class_part_memo_inv:
  "class_part rd r s = Inr s' \<Longrightarrow> memo_inv x s \<Longrightarrow> memo_inv x s'"
  using class_part_Inr [of rd r s s'] by (auto intro: assign_memo_inv)

lemma department_part_memo_inv:
  "department_part rd r s = Inr s' \<Longrightarrow> memo_inv x s \<Longrightarrow> memo_inv x s'"
  using department_part_Inr [of rd r s s'] by (auto intro: assign_memo_inv)

lemma location_part_memo_inv:
  "location_part rd r s = Inr s' \<Longrightarrow> memo_inv x s \<Longrightarrow> memo_inv x s'"
  using location_part_Inr [of rd r s s'] by (auto intro: assign_memo_inv)

lemma amount_part_memo_inv:
  "amount_part b r s = Inr s' \<Longrightarrow> memo_inv x s \<Longrightarrow> memo_inv x s'"
  using amount_part_Inr [of b r s s'] by (auto intro: assign_memo_inv)

lemma record_subsidiary_fields:
  "heap (record_subsidiary r sub s) = heap s \<and>
   line_items (record_subsidiary r sub s) = line_items s \<and>
   journal_entry_line (record_subsidiary r sub s) = journal_entry_line s \<and>
   logged (record_subsidiary r sub s) = logged s"
  by (simp add: record_subsidiary_def split: option.splits)

lemma memo_inv_record_subsidiary:
  "memo_inv x (record_subsidiary r sub s) = memo_inv x s"
  by (simp add: memo_inv_def record_subsidiary_fields)

lemma memo_inv_new_line:
  assumes "memo_inv x s"
  shows "memo_inv x (s\<lparr>heap := heap s @ [l], journal_entry_line := Some (length (heap s))\<rparr>)"
  using assms by (auto simp: memo_inv_def nth_append)

lemma account_part_memo_inv:
  assumes "account_part b rd r s = Inr fl" and "memo_inv x s"
  shows "memo_inv x (case fl of Skip s' \<Rightarrow> s' | Go s' \<Rightarrow> s')"
proof (cases "truthy_list (Accounts rd) \<and> truthy (row_get r ''Account Number'')")
  case True
  show ?thesis
  proof (cases "acct_lookup b rd r")
    case Nil
    then show ?thesis using assms True by (auto simp: account_part_def memo_inv_def)
  next
    case (Cons a as)
    then show ?thesis
      using assms True
      by (auto simp: account_part_def exn_bind_Inr_iff memo_inv_record_subsidiary
          intro: memo_inv_new_line)
  qed
next
  case False
  then show ?thesis using assms by (auto simp: account_part_def)
qed

lemma memo_append_memo_inv:
  assumes "memo_part x s = Inr s1" and "append_part s1 = Inr s2"
    and "''Description'' \<in> set (columns x)" and "memo_inv x s"
  shows "memo_inv x s2"
proof -
  from assms(1,3) obtain v where v: "iloc0 x ''Description'' = Inr v"
    and as: "assign (\<lambda>l. l\<lparr>memo := Some v\<rparr>) s = Inr s1"
    by (auto simp: memo_part_def exn_bind_Inr_iff)
  from as obtain a where a: "journal_entry_line s = Some a"
    and s1: "s1 = s\<lparr>heap := (heap s)[a := (heap s ! a)\<lparr>memo := Some v\<rparr>]\<rparr>"
    using assign_Inr by blast
  from assms(2) a s1 have s2: "s2 = s1\<lparr>line_items := line_items s1 @ [a]\<rparr>"
    by (auto simp: append_part_def)
  from assms(4) a have "a < length (heap s)" by (simp add: memo_inv_def)
  then show ?thesis
    using assms(4) v a unfolding s2 s1 memo_inv_def
    by (auto simp: nth_list_update)
qed

lemma row_body_memo_inv:
  assumes "row_body b x rd r s = Inr s'" and "''Description'' \<in> set (columns x)"
    and "memo_inv x s"
  shows "memo_inv x s'"
proof -
  from assms(1) obtain fl where fl: "account_part b rd r s = Inr fl"
    and rest: "(case fl of Skip t \<Rightarrow> Inr t | Go s1 \<Rightarrow>
           exn_bind (class_part rd r s1) (\<lambda>s2.
           exn_bind (department_part rd r s2) (\<lambda>s3.
           exn_bind (location_part rd r s3) (\<lambda>s4.
           exn_bind (amount_part b r s4) (\<lambda>s5.
           exn_bind (memo_part x s5) append_part))))) = Inr s'"
    by (auto simp: row_body_def exn_bind_Inr_iff)
  have inv: "memo_inv x (case fl of Skip t \<Rightarrow> t | Go t \<Rightarrow> t)"
    using account_part_memo_inv [OF fl assms(3)] .
  show ?thesis
  proof (cases fl)
    case (Skip t)
    then show ?thesis using rest inv by simp
  next
    case (Go s1)
    from rest Go obtain s2 where p2: "class_part rd r s1 = Inr s2"
      and r2: "exn_bind (department_part rd r s2) (\<lambda>s3.
           exn_bind (location_part rd r s3) (\<lambda>s4.
           exn_bind (amount_part b r s4) (\<lambda>s5.
           exn_bind (memo_part x s5) append_part))) = Inr s'"
      by (simp add: exn_bind_Inr_iff) blast
    from r2 obtain s3 where p3: "department_part rd r s2 = Inr s3"
      and r3: "exn_bind (location_part rd r s3) (\<lambda>s4.
           exn_bind (amount_part b r s4) (\<lambda>s5.
           exn_bind (memo_part x s5) append_part)) = Inr s'"
      by (subst (asm) exn_bind_Inr_iff) blast
    from r3 obtain s4 where p4: "location_part rd r s3 = Inr s4"
      and r4: "exn_bind (amount_part b r s4) (\<lambda>s5.
           exn_bind (memo_part x s5) append_part) = Inr s'"
      by (subst (asm) exn_bind_Inr_iff) blast
    from r4 obtain s5 where p5: "amount_part b r s4 = Inr s5"
      and r5: "exn_bind (memo_part x s5) append_part = Inr s'"
      by (subst (asm) exn_bind_Inr_iff) blast
    from r5 obtain s6 where p6: "memo_part x s5 = Inr s6" and p7: "append_part s6 = Inr s'"
      by (subst (asm) exn_bind_Inr_iff) blast
    have "memo_inv x s1" using inv Go by simp
    then have "memo_inv x s2" using p2 by (rule class_part_memo_inv [rotated])
    then have "memo_inv x s3" using p3 by (rule department_part_memo_inv [rotated])
    then have "memo_inv x s4" using p4 by (rule location_part_memo_inv [rotated])
    then have "memo_inv x s5" using p5 by (rule amount_part_memo_inv [rotated])
    then show ?thesis using memo_append_memo_inv [OF p6 p7 assms(2)] by simp
  qed
qed

lemma iterrows_loop_memo_inv:
  "iterrows_loop b x rd rs s = Inr s' \<Longrightarrow> ''Description'' \<in> set (columns x) \<Longrightarrow>
     memo_inv x s \<Longrightarrow> memo_inv x s'"
proof (induction rs arbitrary: s)
  case Nil
  then show ?case by simp
next
  case (Cons r rs)
  then show ?case
    by (auto split: sum.splits intro: row_body_memo_inv)
qed

lemma build_lines_Inr:
  "snd (build_lines b x rd) = Inr e \<Longrightarrow>
     \<exists>s. iterrows_loop b x rd (rows x) init_st = Inr s \<and> finish b x rd s = Inr e"
  by (auto simp: build_lines_def split: sum.splits prod.splits)

lemma finish_lines:
  "finish b x rd s = Inr e \<Longrightarrow> lineList e = map (\<lambda>a. heap s ! a) (line_items s)"
  by (auto simp: finish_def exn_bind_Inr_iff split: option.splits if_splits)

lemma build_lines_memo:
  assumes "snd (build_lines b x rd) = Inr e" and "''Description'' \<in> set (columns x)"
    and "l \<in> set (lineList e)"
  shows "\<exists>v. iloc0 x ''Description'' = Inr v \<and> memo l = Some v"
proof -
  from assms(1) obtain s where lp: "iterrows_loop b x rd (rows x) init_st = Inr s"
    and fin: "finish b x rd s = Inr e"
    using build_lines_Inr by blast
  have "memo_inv x s"
    using iterrows_loop_memo_inv [OF lp assms(2) memo_inv_init] .
  moreover from assms(3) finish_lines [OF fin] obtain a where
    "a \<in> set (line_items s)" "l = heap s ! a" by auto
  ultimately show ?thesis by (auto simp: memo_inv_def)
qed

text \<open>The fields of the entry that \<^verbatim>\<open>build_lines\<close> returns.\<close>

lemma collapse_subs:
  "subs_subsidiary (collapse s) = subs_subsidiary s \<and>
   subs_toSubsidiary (collapse s) =
     (case (subs_subsidiary s, subs_toSubsidiary s) of
        (Some p, Some q) \<Rightarrow> if recordRef_eq p q then None else Some q
      | _ \<Rightarrow> subs_toSubsidiary s)"
  by (cases "subs_subsidiary s"; cases "subs_toSubsidiary s") (simp_all add: collapse_def)

lemma finish_collapse:
  "finish b x rd s = Inr e \<Longrightarrow>
     subsidiary e = subs_subsidiary (collapse s) \<and>
     toSubsidiary e = subs_toSubsidiary (collapse s)"
  by (auto simp: finish_def exn_bind_Inr_iff split: option.splits)

lemma finish_subs:
  assumes "finish b x rd s = Inr e"
  shows "subsidiary e = subs_subsidiary s \<and>
     toSubsidiary e =
       (case (subs_subsidiary s, subs_toSubsidiary s) of
          (Some p, Some q) \<Rightarrow> if recordRef_eq p q then None else Some q
        | _ \<Rightarrow> subs_toSubsidiary s)"
  using finish_collapse [OF assms] collapse_subs [of s] by simp

lemma finish_dates:
  "finish b x rd s = Inr e \<Longrightarrow>
     createdDate e = tranDate e \<and>
     (if ''Transaction Date'' \<in> set (columns x)
      then \<exists>v t. iloc0 x ''Transaction Date'' = Inr v \<and> to_datetime b v = Inr t \<and>
                  createdDate e = Some t
      else createdDate e = None)"
  by (auto simp: finish_def created_date_def exn_bind_Inr_iff split: option.splits if_splits)


text \<open>The token match of classes and departments; rows that make the loop raise.\<close>

lemma token_filter_Inr:
  "\<forall>d \<in> set ds. rec_name d \<noteq> None \<Longrightarrow>
     token_filter v ds = Inr (filter (\<lambda>d. v \<in> VStr ` set (segments d)) ds)"
  by (induction ds) (auto simp: py_in_iff segments_def)

lemma truthy_list_iff: "truthy_list l \<longleftrightarrow> (\<exists>a as. l = Some (a # as))"
  by (cases l rule: truthy_list.cases) auto

lemma split_sales_us: "py_split ''Sales - US'' '' - '' = [''Sales'', ''US'']"
  by code_simp

lemma class_part_tokens:
  assumes "journal_entry_line s = Some a" and "\<forall>d \<in> set ds. rec_name d \<noteq> None"
    and "Classifications rd = Some ds" and "row_get r ''Class'' = v" and "v \<noteq> VStr []"
  shows "class_part rd r s =
     Inr (case filter (\<lambda>d. v \<in> VStr ` set (segments d)) ds of
            [] \<Rightarrow> s
          | d # _ \<Rightarrow> s\<lparr>heap := (heap s)[a := (heap s ! a)\<lparr>class_ref := Some (ref_of d)\<rparr>]\<rparr>)"
proof (cases "truthy_list (Classifications rd) \<and> truthy v")
  case True
  then show ?thesis
    using assms
    by (simp add: class_part_def token_filter_Inr assign_def split: list.splits)
next
  case False
  have "filter (\<lambda>d. v \<in> VStr ` set (segments d)) ds = []"
  proof (cases "truthy v")
    case True
    with False assms(3) have "ds = []" by (cases ds) auto
    then show ?thesis by simp
  next
    case False
    with assms(5) have "\<And>t. v \<noteq> VStr t \<or> t = []" by (cases v) auto
    with assms(5) show ?thesis by (auto simp: filter_empty_conv)
  qed
  with False assms show ?thesis by (auto simp: class_part_def)
qed

lemma department_part_tokens:
  assumes "journal_entry_line s = Some a" and "\<forall>d \<in> set ds. rec_name d \<noteq> None"
    and "Departments rd = Some ds" and "row_get r ''Department'' = v" and "v \<noteq> VStr []"
  shows "department_part rd r s =
     Inr (case filter (\<lambda>d. v \<in> VStr ` set (segments d)) ds of
            [] \<Rightarrow> s
          | d # _ \<Rightarrow> s\<lparr>heap := (heap s)[a := (heap s ! a)\<lparr>department := Some (ref_of d)\<rparr>]\<rparr>)"
proof (cases "truthy_list (Departments rd) \<and> truthy v")
  case True
  then show ?thesis
    using assms
    by (simp add: department_part_def token_filter_Inr assign_def split: list.splits)
next
  case False
  have "filter (\<lambda>d. v \<in> VStr ` set (segments d)) ds = []"
  proof (cases "truthy v")
    case True
    with False assms(3) have "ds = []" by (cases ds) auto
    then show ?thesis by simp
  next
    case False
    with assms(5) have "\<And>t. v \<noteq> VStr t \<or> t = []" by (cases v) auto
    with assms(5) show ?thesis by (auto simp: filter_empty_conv)
  qed
  with False assms show ?thesis by (auto simp: department_part_def)
qed


lemma amount_part_no_amount:
  assumes "r ''Amount'' = None"
    and "py_eq (row_get r ''Posting Type'') (VStr ''Credit'') \<or>
         py_eq (row_get r ''Posting Type'') (VStr ''Debit'')"
  shows "amount_part b r s = Inl (KeyError ''Amount'')"
proof -
  from assms(2) obtain t where t: "r ''Posting Type'' = Some (VStr t)" "t = ''Credit'' \<or> t = ''Debit''"
    by (auto simp: py_eq_VStr row_get_def split: option.splits)
  then show ?thesis
    using assms(1) by (auto simp: amount_part_def row_item_def)
qed

lemma row_body_no_amount:
  assumes "r ''Amount'' = None"
    and "py_eq (row_get r ''Posting Type'') (VStr ''Credit'') \<or>
         py_eq (row_get r ''Posting Type'') (VStr ''Debit'')"
    and "truthy_list (Accounts rd)" and "truthy (row_get r ''Account Number'')"
    and "acct_lookup b rd r \<noteq> []"
  shows "\<exists>e. row_body b x rd r s = Inl e"
proof -
  have am: "\<And>t. amount_part b r t = Inl (KeyError ''Amount'')"
    using amount_part_no_amount [OF assms(1,2)] .
  have tail: "\<exists>e. exn_bind (class_part rd r s1) (\<lambda>s2.
           exn_bind (department_part rd r s2) (\<lambda>s3.
           exn_bind (location_part rd r s3) (\<lambda>s4.
           exn_bind (amount_part b r s4) (\<lambda>s5.
           exn_bind (memo_part x s5) append_part)))) = Inl e" for s1
  proof -
    have 1: "\<exists>e. exn_bind (amount_part b r s4) g = Inl e" for s4 and g :: "st \<Rightarrow> exn + st"
      by (simp add: am)
    have 2: "\<exists>e. exn_bind (location_part rd r s3) (\<lambda>s4. exn_bind (amount_part b r s4) g) = Inl e"
      for s3 and g :: "st \<Rightarrow> exn + st"
      by (rule exn_bind_all_Inl) (rule 1)
    have 3: "\<exists>e. exn_bind (department_part rd r s2) (\<lambda>s3.
         exn_bind (location_part rd r s3) (\<lambda>s4. exn_bind (amount_part b r s4) g)) = Inl e"
      for s2 and g :: "st \<Rightarrow> exn + st"
      by (rule exn_bind_all_Inl) (rule 2)
    show ?thesis
      by (rule exn_bind_all_Inl) (rule 3)
  qed
  obtain a as where "acct_lookup b rd r = a # as"
    using assms(5) by (cases "acct_lookup b rd r") auto
  then have "(\<exists>e. account_part b rd r s = Inl e) \<or> (\<exists>s1. account_part b rd r s = Inr (Go s1))"
    using assms(3,4) by (cases "derive_subsidiary a r") (auto simp: account_part_def)
  then show ?thesis
    using tail by (auto simp: row_body_def)
qed

lemma iterrows_loop_fails:
  assumes "r \<in> set rs" and "\<And>s. \<exists>e. row_body b x rd r s = Inl e"
  shows "\<exists>f. iterrows_loop b x rd rs s = Inl f"
  using assms(1)
proof (induction rs arbitrary: s)
  case Nil
  then show ?case by simp
next
  case (Cons r' rs)
  show ?case
  proof (cases "row_body b x rd r' s")
    case (Inl e)
    then show ?thesis by simp
  next
    case (Inr s')
    have "r' \<noteq> r" using Inr assms(2) [of s] by auto
    with Cons.prems have "r \<in> set rs" by simp
    then show ?thesis using Cons.IH [of s'] Inr by simp
  qed
qed


lemma assign_unbound: "journal_entry_line s = None \<Longrightarrow> assign f s = Inl (UnboundLocalError ''journal_entry_line'')"
  by (simp add: assign_def)

lemma row_body_unbound:
  assumes "\<not> truthy_list (Accounts rd)" and "journal_entry_line s = None"
  shows "\<exists>e. row_body b x rd r s = Inl e"
proof -
  have un: "\<And>f s'. assign f s \<noteq> Inr s'"
    using assms(2) by (simp add: assign_unbound)
  have ap: "\<exists>e. append_part s = Inl e"
    using assms(2) by (simp add: append_part_def)
  have 5: "\<exists>e. exn_bind (memo_part x s) append_part = Inl e"
  proof (cases "memo_part x s")
    case (Inl e)
    then show ?thesis by simp
  next
    case (Inr s')
    then have "s' = s" using un by (auto simp: memo_part_def exn_bind_Inr_iff split: if_splits)
    then show ?thesis using Inr ap by simp
  qed
  have 4: "\<exists>e. exn_bind (amount_part b r s) (\<lambda>s5. exn_bind (memo_part x s5) append_part) = Inl e"
  proof (cases "amount_part b r s")
    case (Inl e)
    then show ?thesis by simp
  next
    case (Inr s')
    then have "s' = s" using amount_part_Inr [of b r s s'] un by auto
    then show ?thesis using Inr 5 by simp
  qed
  have 3: "\<exists>e. exn_bind (location_part rd r s) (\<lambda>s4.
      exn_bind (amount_part b r s4) (\<lambda>s5. exn_bind (memo_part x s5) append_part)) = Inl e"
  proof (cases "location_part rd r s")
    case (Inl e)
    then show ?thesis by simp
  next
    case (Inr s')
    then have "s' = s" using location_part_Inr [of rd r s s'] un by auto
    then show ?thesis using Inr 4 by simp
  qed
  have 2: "\<exists>e. exn_bind (department_part rd r s) (\<lambda>s3. exn_bind (location_part rd r s3) (\<lambda>s4.
      exn_bind (amount_part b r s4) (\<lambda>s5. exn_bind (memo_part x s5) append_part))) = Inl e"
  proof (cases "department_part rd r s")
    case (Inl e)
    then show ?thesis by simp
  next
    case (Inr s')
    then have "s' = s" using department_part_Inr [of rd r s s'] un by auto
    then show ?thesis using Inr 3 by simp
  qed
  have 1: "\<exists>e. exn_bind (class_part rd r s) (\<lambda>s2. exn_bind (department_part rd r s2) (\<lambda>s3.
      exn_bind (location_part rd r s3) (\<lambda>s4.
      exn_bind (amount_part b r s4) (\<lambda>s5. exn_bind (memo_part x s5) append_part)))) = Inl e"
  proof (cases "class_part rd r s")
    case (Inl e)
    then show ?thesis by simp
  next
    case (Inr s')
    then have "s' = s" using class_part_Inr [of rd r s s'] un by auto
    then show ?thesis using Inr 2 by simp
  qed
  have "account_part b rd r s = Inr (Go s)"
    using assms(1) by (simp add: account_part_def)
  then show ?thesis using 1 by (simp add: row_body_def)
qed

lemma finish_currency_unbound:
  assumes "currency_part rd (rows x) = Inr None"
  shows "\<exists>e. finish b x rd s = Inl e"
proof -
  have "\<exists>e. exn_bind (created_date b x) (\<lambda>cd.
     exn_bind (iloc0 x ''Journal Entry Id'') (\<lambda>eid.
       case None :: reference option option of
         None \<Rightarrow> Inl (UnboundLocalError ''currency_ref'')
       | Some cur \<Rightarrow>
           Inr \<lparr>createdDate = cd, tranDate = cd, externalId = eid,
                lineList = map (\<lambda>a. heap s ! a) (line_items s),
                currency = cur,
                subsidiary = subs_subsidiary (collapse s),
                toSubsidiary = subs_toSubsidiary (collapse s)\<rparr>)) = Inl e"
    by (intro exn_bind_all_Inl) simp
  then show ?thesis using assms by (simp add: finish_def)
qed


section \<open>Lemmas on grouping and loading\<close>

lemma set_group_keys:
  "set (group_keys df k) = {v. v \<in> (\<lambda>r. row_get r k) ` set (rows df) \<and> \<not> isna v}"
  by (auto simp: group_keys_def)

lemma distinct_group_keys: "distinct (group_keys df k)"
  by (simp add: group_keys_def)

lemma sorted_group_keys: "sorted (map key_order (group_keys df k))"
  by (simp add: group_keys_def)

lemma map_fst_groupby: "map fst (groupby df k) = group_keys df k"
  by (simp add: groupby_def comp_def)

lemma groupby_member:
  "(v, g) \<in> set (groupby df k) \<longleftrightarrow>
     v \<in> set (group_keys df k) \<and> g = df\<lparr>rows := filter (\<lambda>r. row_get r k = v) (rows df)\<rparr>"
  by (auto simp: groupby_def)


lemma apply_build_lines_Inr:
  "snd (apply_build_lines b rd gs) = Inr js \<Longrightarrow>
     list_all2 (\<lambda>g j. snd (build_lines b g rd) = Inr j) gs js"
proof (induction gs arbitrary: js)
  case Nil
  then show ?case by simp
next
  case (Cons g gs)
  obtain lg res where bl: "build_lines b g rd = (lg, res)" by (cases "build_lines b g rd")
  obtain lg' res' where ap: "apply_build_lines b rd gs = (lg', res')"
    by (cases "apply_build_lines b rd gs")
  from Cons.prems bl ap obtain j js' where "res = Inr j" "res' = Inr js'" "js = j # js'"
    by (cases res; cases res') auto
  then show ?case
    using Cons.IH [of js'] bl ap by simp
qed

lemma load_journal_entries_Inr:
  assumes "snd (load_journal_entries b df rd) = Inr js"
  shows "list_all (\<lambda>col. col \<in> set (columns df)) REQUIRED_COLS \<and>
     list_all2 (\<lambda>vg j. snd (build_lines b (snd vg) rd) = Inr j)
       (groupby df ''Journal Entry Id'') js"
proof -
  have req: "list_all (\<lambda>col. col \<in> set (columns df)) REQUIRED_COLS"
    using assms by (auto simp: load_journal_entries_def split: if_splits)
  then have "snd (build_entries b df rd) = Inr js"
    using assms by (simp add: load_journal_entries_def)
  then have "snd (apply_build_lines b rd (map snd (groupby df ''Journal Entry Id''))) = Inr js"
    by (auto simp: build_entries_def split: prod.splits sum.splits)
  then have "list_all2 (\<lambda>g j. snd (build_lines b g rd) = Inr j)
      (map snd (groupby df ''Journal Entry Id'')) js"
    by (rule apply_build_lines_Inr)
  then show ?thesis
    using req by (simp add: list_all2_map1)
qed

lemma iloc0_Inr:
  "iloc0 x k = Inr v \<Longrightarrow> \<exists>r0 rs. rows x = r0 # rs \<and> r0 k = Some v"
  by (auto simp: iloc0_def row_item_def split: if_splits list.splits option.splits)


section \<open>The claims\<close>

text \<open>
  Claim C1 (account gating).  A row adds a line exactly when its account number
  resolves; a row without a match, or with the Accounts collection absent, is to be
  skipped.  The code skips a row only when the lookup ran and found nothing.  When
  the Accounts collection is absent (or empty) the lookup does not run, the variable
  \<^verbatim>\<open>journal_entry_line\<close> is never bound, and the first row of the group raises
  instead of being skipped: no group is ever assembled.
\<close>

theorem C1_accounts_absent_raises:
  assumes "\<not> truthy_list (Accounts rd)" and "rows x \<noteq> []"
  shows "\<exists>e. snd (build_lines b x rd) = Inl e"
proof -
  obtain r rs where rs: "rows x = r # rs" using assms(2) by (cases "rows x") auto
  have "journal_entry_line init_st = None" by (simp add: init_st_def)
  then obtain e where "row_body b x rd r init_st = Inl e"
    using row_body_unbound [OF assms(1)] by blast
  then show ?thesis by (simp add: build_lines_def rs)
qed

text \<open>
  A run on a frame with every required column and one row, with the Accounts
  collection absent, ends with UnboundLocalError.
\<close>

theorem C1_accounts_absent_raises_witness:
  "(\<exists>e. snd (build_lines ex_builtins
       (ex_frame [ex_row (VStr ''JE1'') (VInt 100) (VStr ''Credit'') (VInt 10) (VStr ''USD'')])
       (ex_refs\<lparr>Accounts := None\<rparr>)) = Inl e) \<and>
   load_journal_entries ex_builtins
     (ex_frame [ex_row (VStr ''JE1'') (VInt 100) (VStr ''Credit'') (VInt 10) (VStr ''USD'')])
     (ex_refs\<lparr>Accounts := None\<rparr>)
   = ([], Inl (UnboundLocalError ''journal_entry_line''))"
proof (rule conjI)
  let ?x = "ex_frame [ex_row (VStr ''JE1'') (VInt 100) (VStr ''Credit'') (VInt 10) (VStr ''USD'')]"
  have 1: "\<not> truthy_list (Accounts (ex_refs\<lparr>Accounts := None\<rparr>))" by simp
  have 2: "rows ?x \<noteq> []" by (simp add: ex_frame_def)
  show "\<exists>e. snd (build_lines ex_builtins ?x (ex_refs\<lparr>Accounts := None\<rparr>)) = Inl e"
    by (rule C1_accounts_absent_raises [OF 1 2])
  show "load_journal_entries ex_builtins ?x (ex_refs\<lparr>Accounts := None\<rparr>)
     = ([], Inl (UnboundLocalError ''journal_entry_line''))"
    by code_simp
qed

text \<open>
  Claim C2 (credit and debit).  Every line has at most one of credit and debit set.
  A row whose Account Number cell is 0 does not run the lookup either; after a row
  that built a line, the variable still holds that line, so the second row writes its
  debit into the first row's dict and appends the same dict again: both lines of the
  entry carry a credit of 10 and a debit of 5.
\<close>

theorem C2_stale_line_gets_both_amounts:
  "map_sum id (map (\<lambda>j. map (\<lambda>l. (credit l, debit l)) (lineList j)))
     (snd (load_journal_entries ex_builtins
        (ex_frame [ex_row (VStr ''JE1'') (VInt 100) (VStr ''Credit'') (VInt 10) (VStr ''USD''),
                   ex_row (VStr ''JE1'') (VInt 0) (VStr ''Debit'') (VInt 5) (VStr ''USD'')])
        ex_refs))
   = Inr [[(Some (VInt 10), Some (VInt 5)), (Some (VInt 10), Some (VInt 5))]]"
  by code_simp

text \<open>
  Claim C3 (currency).  When no currency record matches the symbol of the last row,
  the entry's currency is to be unset and the assembly to complete.  In the code the
  \<^verbatim>\<open>else\<close> that assigns \<^verbatim>\<open>None\<close> belongs to the outer condition, so with
  a symbol that matches nothing \<^verbatim>\<open>currency_ref\<close> is never assigned and building
  the entry raises: with the Currencies loaded, a group whose last row has a Currency
  cell that matches no symbol is never assembled.
\<close>

theorem C3_unmatched_currency_raises:
  assumes "truthy_list (Currencies rd)" and "rows x \<noteq> []"
    and "truthy (row_get (last (rows x)) ''Currency'')"
    and "currency_lookup rd (last (rows x)) = []"
  shows "\<exists>e. snd (build_lines b x rd) = Inl e"
proof (cases "iterrows_loop b x rd (rows x) init_st")
  case (Inl f)
  then show ?thesis by (cases f) (simp add: build_lines_def)
next
  case (Inr s)
  have "currency_part rd (rows x) = Inr None"
    using assms by (simp add: currency_part_def)
  then obtain e where "finish b x rd s = Inl e"
    using finish_currency_unbound by blast
  then show ?thesis using Inr by (simp add: build_lines_def)
qed

text \<open>The only currency is USD and the row says EUR: the run ends with UnboundLocalError.\<close>

theorem C3_unmatched_currency_raises_witness:
  "(\<exists>e. snd (build_lines ex_builtins
       (ex_frame [ex_row (VStr ''JE1'') (VInt 100) (VStr ''Credit'') (VInt 10) (VStr ''EUR'')])
       ex_refs) = Inl e) \<and>
   load_journal_entries ex_builtins
     (ex_frame [ex_row (VStr ''JE1'') (VInt 100) (VStr ''Credit'') (VInt 10) (VStr ''EUR'')])
     ex_refs
   = ([], Inl (UnboundLocalError ''currency_ref''))"
proof (rule conjI)
  let ?x = "ex_frame [ex_row (VStr ''JE1'') (VInt 100) (VStr ''Credit'') (VInt 10) (VStr ''EUR'')]"
  have 1: "truthy_list (Currencies ex_refs)" by (simp add: ex_refs_def)
  have 2: "rows ?x \<noteq> []" by (simp add: ex_frame_def)
  have 3: "truthy (row_get (last (rows ?x)) ''Currency'')"
    by (simp add: ex_frame_def row_get_def ex_row_def)
  have 4: "currency_lookup ex_refs (last (rows ?x)) = []" by code_simp
  show "\<exists>e. snd (build_lines ex_builtins ?x ex_refs) = Inl e"
    by (rule C3_unmatched_currency_raises [OF 1 2 3 4])
  show "load_journal_entries ex_builtins ?x ex_refs
     = ([], Inl (UnboundLocalError ''currency_ref''))"
    by code_simp
qed

text \<open>
  Claim C4 (grouping), as amended.  The groups are keyed by the Journal Entry Ids
  that are not missing, each key once, in ascending order of the keys; a group is
  the frame's rows with its key, in the frame's order, and is not empty; a row with
  a key is in exactly one group, the one of its key; a row whose key is missing is in
  no group.
\<close>

theorem C4_groupby_partition:
  "distinct (map fst (groupby df k)) \<and>
   sorted (map (key_order \<circ> fst) (groupby df k)) \<and>
   (\<forall>vg \<in> set (groupby df k).
      \<not> isna (fst vg) \<and> columns (snd vg) = columns df \<and> rows (snd vg) \<noteq> [] \<and>
      rows (snd vg) = filter (\<lambda>r. row_get r k = fst vg) (rows df)) \<and>
   (\<forall>r \<in> set (rows df). \<not> isna (row_get r k) \<longrightarrow>
      (\<exists>!vg. vg \<in> set (groupby df k) \<and> r \<in> set (rows (snd vg))) \<and>
      (\<exists>g. (row_get r k, g) \<in> set (groupby df k) \<and> r \<in> set (rows g))) \<and>
   (\<forall>r \<in> set (rows df). isna (row_get r k) \<longrightarrow>
      (\<forall>vg \<in> set (groupby df k). r \<notin> set (rows (snd vg))))"
proof (intro conjI ballI impI)
  show "distinct (map fst (groupby df k))"
    by (simp add: map_fst_groupby distinct_group_keys)
  show "sorted (map (key_order \<circ> fst) (groupby df k))"
    using sorted_group_keys [of df k] by (simp add: map_fst_groupby [symmetric] comp_def)
next
  fix vg assume vg: "vg \<in> set (groupby df k)"
  then have m: "fst vg \<in> set (group_keys df k)"
    and g: "snd vg = df\<lparr>rows := filter (\<lambda>r. row_get r k = fst vg) (rows df)\<rparr>"
    using groupby_member [of "fst vg" "snd vg" df k] by auto
  show "\<not> isna (fst vg)" using m by (simp add: set_group_keys)
  show "columns (snd vg) = columns df" by (simp add: g)
  show "rows (snd vg) = filter (\<lambda>r. row_get r k = fst vg) (rows df)" by (simp add: g)
  show "rows (snd vg) \<noteq> []" using m by (auto simp: g set_group_keys filter_empty_conv)
next
  fix r assume r: "r \<in> set (rows df)" and k: "\<not> isna (row_get r k)"
  let ?g = "df\<lparr>rows := filter (\<lambda>r'. row_get r' k = row_get r k) (rows df)\<rparr>"
  have in_g: "(row_get r k, ?g) \<in> set (groupby df k)"
    using r k by (auto simp: groupby_member set_group_keys)
  have r_g: "r \<in> set (rows ?g)" using r by simp
  show "\<exists>g. (row_get r k, g) \<in> set (groupby df k) \<and> r \<in> set (rows g)"
    using in_g r_g by blast
  show "\<exists>!vg. vg \<in> set (groupby df k) \<and> r \<in> set (rows (snd vg))"
  proof (rule ex1I [of _ "(row_get r k, ?g)"])
    show "(row_get r k, ?g) \<in> set (groupby df k) \<and> r \<in> set (rows (snd (row_get r k, ?g)))"
      using in_g r_g by simp
  next
    fix vg assume "vg \<in> set (groupby df k) \<and> r \<in> set (rows (snd vg))"
    then show "vg = (row_get r k, ?g)"
      using groupby_member [of "fst vg" "snd vg" df k] by (cases vg) auto
  qed
next
  fix r vg assume "r \<in> set (rows df)" and na: "isna (row_get r k)"
    and vg: "vg \<in> set (groupby df k)"
  then show "r \<notin> set (rows (snd vg))"
    using groupby_member [of "fst vg" "snd vg" df k] by (auto simp: set_group_keys)
qed

theorem C4_groupby_partition_witness:
  "distinct (map fst (groupby
      (ex_frame [ex_row (VStr ''B'') (VInt 100) (VStr ''Credit'') (VInt 1) (VStr ''USD''),
                 ex_row (VStr ''A'') (VInt 100) (VStr ''Credit'') (VInt 3) (VStr ''USD'')])
      ''Journal Entry Id'')) \<and>
   map fst (groupby
      (ex_frame [ex_row (VStr ''B'') (VInt 100) (VStr ''Credit'') (VInt 1) (VStr ''USD''),
                 ex_row (VStr ''A'') (VInt 100) (VStr ''Credit'') (VInt 3) (VStr ''USD'')])
      ''Journal Entry Id'') = [VStr ''A'', VStr ''B''] \<and>
   (\<exists>g. (VStr ''A'', g) \<in> set (groupby
      (ex_frame [ex_row (VStr ''B'') (VInt 100) (VStr ''Credit'') (VInt 1) (VStr ''USD''),
                 ex_row (VStr ''A'') (VInt 100) (VStr ''Credit'') (VInt 3) (VStr ''USD'')])
      ''Journal Entry Id'') \<and>
      ex_row (VStr ''A'') (VInt 100) (VStr ''Credit'') (VInt 3) (VStr ''USD'') \<in> set (rows g))"
proof (intro conjI)
  let ?rA = "ex_row (VStr ''A'') (VInt 100) (VStr ''Credit'') (VInt 3) (VStr ''USD'')"
  let ?F = "ex_frame [ex_row (VStr ''B'') (VInt 100) (VStr ''Credit'') (VInt 1) (VStr ''USD''), ?rA]"
  let ?k = "''Journal Entry Id''"
  show "distinct (map fst (groupby ?F ?k))"
    by (rule conjunct1 [OF C4_groupby_partition])
  show "map fst (groupby ?F ?k) = [VStr ''A'', VStr ''B'']"
    by code_simp
  have every: "\<forall>r \<in> set (rows ?F). \<not> isna (row_get r ?k) \<longrightarrow>
      (\<exists>!vg. vg \<in> set (groupby ?F ?k) \<and> r \<in> set (rows (snd vg))) \<and>
      (\<exists>g. (row_get r ?k, g) \<in> set (groupby ?F ?k) \<and> r \<in> set (rows g))"
    by (rule conjunct1 [OF conjunct2 [OF conjunct2 [OF conjunct2
          [OF C4_groupby_partition [of ?F ?k]]]]])
  have rin: "?rA \<in> set (rows ?F)" by (simp add: ex_frame_def)
  have key: "row_get ?rA ?k = VStr ''A''" by (simp add: row_get_def ex_row_def)
  have "\<not> isna (row_get ?rA ?k)" by (simp add: key)
  with every rin have "\<exists>g. (row_get ?rA ?k, g) \<in> set (groupby ?F ?k) \<and> ?rA \<in> set (rows g)"
    by blast
  then show "\<exists>g. (VStr ''A'', g) \<in> set (groupby ?F ?k) \<and> ?rA \<in> set (rows g)"
    by (simp only: key)
qed

text \<open>
  The claim as stated fails on three rows with the ids B, missing, A: the groups come
  out as A, B and not in the order B, A of first occurrence, and the row without an id
  (the one with amount 2) is in no group.
\<close>

theorem C4_first_seen_order_counterexample:
  "map fst (groupby
      (ex_frame [ex_row (VStr ''B'') (VInt 100) (VStr ''Credit'') (VInt 1) (VStr ''USD''),
                 ex_row (VNaN 0) (VInt 100) (VStr ''Credit'') (VInt 2) (VStr ''USD''),
                 ex_row (VStr ''A'') (VInt 100) (VStr ''Credit'') (VInt 3) (VStr ''USD'')])
      ''Journal Entry Id'') = [VStr ''A'', VStr ''B''] \<and>
   first_seen_keys (map (\<lambda>r. row_get r ''Journal Entry Id'') (rows
      (ex_frame [ex_row (VStr ''B'') (VInt 100) (VStr ''Credit'') (VInt 1) (VStr ''USD''),
                 ex_row (VNaN 0) (VInt 100) (VStr ''Credit'') (VInt 2) (VStr ''USD''),
                 ex_row (VStr ''A'') (VInt 100) (VStr ''Credit'') (VInt 3) (VStr ''USD'')])))
     = [VStr ''B'', VNaN 0, VStr ''A''] \<and>
   map (\<lambda>vg. map (\<lambda>r. row_get r ''Amount'') (rows (snd vg))) (groupby
      (ex_frame [ex_row (VStr ''B'') (VInt 100) (VStr ''Credit'') (VInt 1) (VStr ''USD''),
                 ex_row (VNaN 0) (VInt 100) (VStr ''Credit'') (VInt 2) (VStr ''USD''),
                 ex_row (VStr ''A'') (VInt 100) (VStr ''Credit'') (VInt 3) (VStr ''USD'')])
      ''Journal Entry Id'') = [[VInt 3], [VInt 1]]"
  by code_simp

text \<open>
  Claim C5 (subsidiary collapse), as amended.  With \<open>s\<close> the state the loop ends in:
  the entry's subsidiary is the one the loop recorded; when both sides were recorded
  and the two references are equal as dicts, that is, each of name, internalId,
  externalId and type is the same object in both or equal under \<^verbatim>\<open>==\<close>,
  toSubsidiary is dropped; when they differ in one of the four fields both are kept;
  when only one side was recorded nothing changes.
\<close>

theorem C5_collapse_on_equal_references:
  assumes "snd (build_lines b x rd) = Inr e"
  shows "\<exists>s. iterrows_loop b x rd (rows x) init_st = Inr s \<and>
     subsidiary e = subs_subsidiary s \<and>
     toSubsidiary e =
       (case (subs_subsidiary s, subs_toSubsidiary s) of
          (Some p, Some q) \<Rightarrow>
            if (sub_name p = sub_name q \<or> py_eq (sub_name p) (sub_name q)) \<and>
               (sub_internalId p = sub_internalId q \<or>
                  py_eq (sub_internalId p) (sub_internalId q)) \<and>
               (sub_externalId p = sub_externalId q \<or>
                  py_eq (sub_externalId p) (sub_externalId q)) \<and>
               (sub_type p = sub_type q \<or> py_eq (sub_type p) (sub_type q))
            then None else Some q
        | _ \<Rightarrow> subs_toSubsidiary s)"
proof -
  from assms obtain s where lp: "iterrows_loop b x rd (rows x) init_st = Inr s"
    and fin: "finish b x rd s = Inr e"
    using build_lines_Inr by blast
  have "subsidiary e = subs_subsidiary s \<and>
     toSubsidiary e =
       (case (subs_subsidiary s, subs_toSubsidiary s) of
          (Some p, Some q) \<Rightarrow>
            if (sub_name p = sub_name q \<or> py_eq (sub_name p) (sub_name q)) \<and>
               (sub_internalId p = sub_internalId q \<or>
                  py_eq (sub_internalId p) (sub_internalId q)) \<and>
               (sub_externalId p = sub_externalId q \<or>
                  py_eq (sub_externalId p) (sub_externalId q)) \<and>
               (sub_type p = sub_type q \<or> py_eq (sub_type p) (sub_type q))
            then None else Some q
        | _ \<Rightarrow> subs_toSubsidiary s)"
    using finish_subs [OF fin] by (simp only: recordRef_eq_def py_is_or_eq_def)
  with lp show ?thesis
    by (intro exI [of _ s] conjI) simp_all
qed

text \<open>
  Three runs on a Credit row and a Debit row of one entry.  Both with the Subsidiary
  5, the scenario of the specification: the entry has subsidiary only.  Both with
  an empty Subsidiary cell that holds the same NaN object: the two references are
  equal as dicts and the entry has subsidiary only.  Both with an empty cell, each
  holding a NaN object of its own: the entry keeps both.
\<close>

theorem C5_collapse_on_equal_references_witness:
  "(\<exists>e s. snd (build_lines ex_builtins (ex_frame_subsidiary (ex_rows_subsidiary (VInt 5) (VInt 5)))
              ex_refs) = Inr e \<and>
      iterrows_loop ex_builtins (ex_frame_subsidiary (ex_rows_subsidiary (VInt 5) (VInt 5)))
        ex_refs (rows (ex_frame_subsidiary (ex_rows_subsidiary (VInt 5) (VInt 5)))) init_st = Inr s \<and>
      subs_subsidiary s = Some (ex_explicit_sub (VInt 5)) \<and>
      subs_toSubsidiary s = Some (ex_explicit_sub (VInt 5)) \<and>
      subsidiary e = Some (ex_explicit_sub (VInt 5)) \<and> toSubsidiary e = None) \<and>
   map_sum id (\<lambda>e. (subsidiary e, toSubsidiary e))
     (snd (build_lines ex_builtins (ex_frame_subsidiary (ex_rows_subsidiary (VNaN 0) (VNaN 0))) ex_refs))
     = Inr (Some (ex_explicit_sub (VNaN 0)), None) \<and>
   map_sum id (\<lambda>e. (subsidiary e, toSubsidiary e))
     (snd (build_lines ex_builtins (ex_frame_subsidiary (ex_rows_subsidiary (VNaN 0) (VNaN 1))) ex_refs))
     = Inr (Some (ex_explicit_sub (VNaN 1)), Some (ex_explicit_sub (VNaN 0)))"
proof (intro conjI)
  let ?x = "ex_frame_subsidiary (ex_rows_subsidiary (VInt 5) (VInt 5))"
  have ev: "map_sum (\<lambda>f. ()) (\<lambda>s. (subs_subsidiary s, subs_toSubsidiary s))
       (iterrows_loop ex_builtins ?x ex_refs (rows ?x) init_st)
     = Inr (Some (ex_explicit_sub (VInt 5)), Some (ex_explicit_sub (VInt 5)))"
    by code_simp
  have ok: "\<not> isl (snd (build_lines ex_builtins ?x ex_refs))"
    by code_simp
  then obtain e where h: "snd (build_lines ex_builtins ?x ex_refs) = Inr e"
    by (cases "snd (build_lines ex_builtins ?x ex_refs)") auto
  from C5_collapse_on_equal_references [OF h] obtain s where
    lp: "iterrows_loop ex_builtins ?x ex_refs (rows ?x) init_st = Inr s"
    and sub: "subsidiary e = subs_subsidiary s"
    and to: "toSubsidiary e =
       (case (subs_subsidiary s, subs_toSubsidiary s) of
          (Some p, Some q) \<Rightarrow>
            if (sub_name p = sub_name q \<or> py_eq (sub_name p) (sub_name q)) \<and>
               (sub_internalId p = sub_internalId q \<or>
                  py_eq (sub_internalId p) (sub_internalId q)) \<and>
               (sub_externalId p = sub_externalId q \<or>
                  py_eq (sub_externalId p) (sub_externalId q)) \<and>
               (sub_type p = sub_type q \<or> py_eq (sub_type p) (sub_type q))
            then None else Some q
        | _ \<Rightarrow> subs_toSubsidiary s)"
    by blast
  from ev lp have st: "subs_subsidiary s = Some (ex_explicit_sub (VInt 5))"
    "subs_toSubsidiary s = Some (ex_explicit_sub (VInt 5))"
    by simp_all
  have "subsidiary e = Some (ex_explicit_sub (VInt 5))" using sub st by simp
  moreover have "toSubsidiary e = None" using to st by simp
  ultimately show "\<exists>e s. snd (build_lines ex_builtins ?x ex_refs) = Inr e \<and>
      iterrows_loop ex_builtins ?x ex_refs (rows ?x) init_st = Inr s \<and>
      subs_subsidiary s = Some (ex_explicit_sub (VInt 5)) \<and>
      subs_toSubsidiary s = Some (ex_explicit_sub (VInt 5)) \<and>
      subsidiary e = Some (ex_explicit_sub (VInt 5)) \<and> toSubsidiary e = None"
    using h lp st by blast
next
  show "map_sum id (\<lambda>e. (subsidiary e, toSubsidiary e))
     (snd (build_lines ex_builtins (ex_frame_subsidiary (ex_rows_subsidiary (VNaN 0) (VNaN 0))) ex_refs))
     = Inr (Some (ex_explicit_sub (VNaN 0)), None)"
    by code_simp
next
  show "map_sum id (\<lambda>e. (subsidiary e, toSubsidiary e))
     (snd (build_lines ex_builtins (ex_frame_subsidiary (ex_rows_subsidiary (VNaN 0) (VNaN 1))) ex_refs))
     = Inr (Some (ex_explicit_sub (VNaN 1)), Some (ex_explicit_sub (VNaN 0)))"
    by code_simp
qed

text \<open>
  The claim as stated fails when the two references share the internal id and
  differ elsewhere: the debit row's account has the default subsidiary named Parent,
  the credit row's account the one named Parent Company, both with internal id 1, and
  the entry keeps both.
\<close>

theorem C5_equal_internal_ids_counterexample:
  "map_sum id (map (\<lambda>j. (subsidiary j, toSubsidiary j)))
     (snd (load_journal_entries ex_builtins
        (ex_frame [ex_row (VStr ''JE1'') (VInt 100) (VStr ''Debit'') (VInt 10) (VStr ''USD''),
                   ex_row (VStr ''JE1'') (VInt 200) (VStr ''Credit'') (VInt 10) (VStr ''USD'')])
        ex_refs_subs))
   = Inr [(Some \<lparr>sub_name = VStr ''Parent'', sub_internalId = VStr ''1'',
                   sub_externalId = VNone, sub_type = VNone\<rparr>,
           Some \<lparr>sub_name = VStr ''Parent Company'', sub_internalId = VStr ''1'',
                   sub_externalId = VNone, sub_type = VNone\<rparr>)]"
  by code_simp

text \<open>
  Claim C6 (required columns).  When one of the eight required columns is not a
  column of the input, the run logs the found and the required columns and ends with
  \<^verbatim>\<open>sys.exit(1)\<close>, whatever the rows and the reference data are: nothing is
  grouped or assembled.  When all eight are present the run goes on to build the
  entries.
\<close>

theorem C6_required_columns:
  "((\<exists>c \<in> set REQUIRED_COLS. c \<notin> set (columns df)) \<longrightarrow>
      load_journal_entries b df rd =
        ([Error_missing_cols (columns df) REQUIRED_COLS], Inl (SystemExit 1))) \<and>
   (set REQUIRED_COLS \<subseteq> set (columns df) \<longrightarrow>
      load_journal_entries b df rd = build_entries b df rd) \<and>
   set REQUIRED_COLS =
     {''Transaction Date'', ''Journal Entry Id'', ''Customer Name'', ''Class'',
      ''Account Number'', ''Account Name'', ''Posting Type'', ''Description''}"
proof (intro conjI impI)
  assume "\<exists>c \<in> set REQUIRED_COLS. c \<notin> set (columns df)"
  then have "\<not> list_all (\<lambda>col. col \<in> set (columns df)) REQUIRED_COLS"
    by (simp add: list_all_iff)
  then show "load_journal_entries b df rd =
        ([Error_missing_cols (columns df) REQUIRED_COLS], Inl (SystemExit 1))"
    by (simp add: load_journal_entries_def)
next
  assume "set REQUIRED_COLS \<subseteq> set (columns df)"
  then have "list_all (\<lambda>col. col \<in> set (columns df)) REQUIRED_COLS"
    by (auto simp: list_all_iff)
  then show "load_journal_entries b df rd = build_entries b df rd"
    by (simp add: load_journal_entries_def)
next
  show "set REQUIRED_COLS =
     {''Transaction Date'', ''Journal Entry Id'', ''Customer Name'', ''Class'',
      ''Account Number'', ''Account Name'', ''Posting Type'', ''Description''}"
    by (simp add: REQUIRED_COLS_def)
qed

theorem C6_required_columns_witness:
  "load_journal_entries ex_builtins ex_frame_no_description ex_refs =
     ([Error_missing_cols (columns ex_frame_no_description) REQUIRED_COLS], Inl (SystemExit 1)) \<and>
   load_journal_entries ex_builtins (ex_frame []) ex_refs =
     build_entries ex_builtins (ex_frame []) ex_refs"
proof (rule conjI)
  have "\<exists>c \<in> set REQUIRED_COLS. c \<notin> set (columns ex_frame_no_description)"
    by (rule bexI [of _ "''Description''"])
      (simp_all add: ex_frame_no_description_def REQUIRED_COLS_def)
  then show "load_journal_entries ex_builtins ex_frame_no_description ex_refs =
     ([Error_missing_cols (columns ex_frame_no_description) REQUIRED_COLS], Inl (SystemExit 1))"
    using C6_required_columns [of ex_frame_no_description ex_builtins ex_refs] by blast
next
  have "set REQUIRED_COLS \<subseteq> set (columns (ex_frame []))"
    by (simp add: REQUIRED_COLS_def ex_frame_def ex_columns_def)
  then show "load_journal_entries ex_builtins (ex_frame []) ex_refs =
     build_entries ex_builtins (ex_frame []) ex_refs"
    using C6_required_columns [of "ex_frame []" ex_builtins ex_refs] by blast
qed

text \<open>
  Claim C7 (token matching).  While a line is being built, and with every record of
  the collection named: the Class cell of a row attaches the first Classification
  that has the cell among the segments of its name split at \<^verbatim>\<open>" - "\<close>, and
  attaches nothing when no record has; the Department cell does the same with the
  Departments.  A record named \<^verbatim>\<open>Sales - US\<close> has the cell among its segments
  exactly when the cell is the string Sales or the string US.  A cell read from a CSV
  file is never the empty string.
\<close>

theorem C7_token_matching:
  assumes "journal_entry_line s = Some a" and "\<forall>d \<in> set ds. rec_name d \<noteq> None"
  shows "(Classifications rd = Some ds \<and> row_get r ''Class'' \<noteq> VStr [] \<longrightarrow>
      class_part rd r s =
        Inr (case filter (\<lambda>d. row_get r ''Class'' \<in> VStr ` set (segments d)) ds of
               [] \<Rightarrow> s
             | d # _ \<Rightarrow> s\<lparr>heap := (heap s)[a := (heap s ! a)\<lparr>class_ref := Some (ref_of d)\<rparr>]\<rparr>)) \<and>
    (Departments rd = Some ds \<and> row_get r ''Department'' \<noteq> VStr [] \<longrightarrow>
      department_part rd r s =
        Inr (case filter (\<lambda>d. row_get r ''Department'' \<in> VStr ` set (segments d)) ds of
               [] \<Rightarrow> s
             | d # _ \<Rightarrow> s\<lparr>heap := (heap s)[a := (heap s ! a)\<lparr>department := Some (ref_of d)\<rparr>]\<rparr>)) \<and>
    (\<forall>d v. rec_name d = Some ''Sales - US'' \<longrightarrow>
       (v \<in> VStr ` set (segments d)) = (v = VStr ''Sales'' \<or> v = VStr ''US''))"
proof (intro conjI impI allI)
  assume "Classifications rd = Some ds \<and> row_get r ''Class'' \<noteq> VStr []"
  then show "class_part rd r s =
        Inr (case filter (\<lambda>d. row_get r ''Class'' \<in> VStr ` set (segments d)) ds of
               [] \<Rightarrow> s
             | d # _ \<Rightarrow> s\<lparr>heap := (heap s)[a := (heap s ! a)\<lparr>class_ref := Some (ref_of d)\<rparr>]\<rparr>)"
    using class_part_tokens [OF assms, of rd r "row_get r ''Class''"] by blast
next
  assume "Departments rd = Some ds \<and> row_get r ''Department'' \<noteq> VStr []"
  then show "department_part rd r s =
        Inr (case filter (\<lambda>d. row_get r ''Department'' \<in> VStr ` set (segments d)) ds of
               [] \<Rightarrow> s
             | d # _ \<Rightarrow> s\<lparr>heap := (heap s)[a := (heap s ! a)\<lparr>department := Some (ref_of d)\<rparr>]\<rparr>)"
    using department_part_tokens [OF assms, of rd r "row_get r ''Department''"] by blast
next
  fix d :: ns_record and v
  assume "rec_name d = Some ''Sales - US''"
  then show "(v \<in> VStr ` set (segments d)) = (v = VStr ''Sales'' \<or> v = VStr ''US'')"
    by (auto simp: segments_def split_sales_us)
qed

theorem C7_token_matching_witness:
  "class_part ex_refs
     (ex_row (VStr ''JE1'') (VInt 100) (VStr ''Credit'') (VInt 10) (VStr ''USD'')) ex_st =
     Inr (ex_st\<lparr>heap := [(new_line (ex_account ''100'' []))\<lparr>class_ref := Some (ref_of ex_class)\<rparr>]\<rparr>)"
proof -
  let ?r = "ex_row (VStr ''JE1'') (VInt 100) (VStr ''Credit'') (VInt 10) (VStr ''USD'')"
  have a: "journal_entry_line ex_st = Some 0" by (simp add: ex_st_def)
  have n: "\<forall>d \<in> set [ex_class]. rec_name d \<noteq> None" by (simp add: ex_class_def)
  have c: "Classifications ex_refs = Some [ex_class]" by (simp add: ex_refs_def)
  have v: "row_get ?r ''Class'' = VStr ''US''" by (simp add: row_get_def ex_row_def)
  have m: "VStr ''US'' \<in> VStr ` set (segments ex_class)"
    by (simp add: segments_def ex_class_def split_sales_us)
  have "class_part ex_refs ?r ex_st =
        Inr (case filter (\<lambda>d. row_get ?r ''Class'' \<in> VStr ` set (segments d)) [ex_class] of
               [] \<Rightarrow> ex_st
             | d # _ \<Rightarrow> ex_st\<lparr>heap := (heap ex_st)[0 := (heap ex_st ! 0)\<lparr>class_ref := Some (ref_of d)\<rparr>]\<rparr>)"
    using C7_token_matching [OF a n, of ex_refs ?r] c v by simp
  then show ?thesis
    using m v by (simp add: ex_st_def)
qed

text \<open>
  Claim C8 (memo).  In every entry that a run returns, every line carries a memo,
  and it is the Description cell of the first row of the entry's group, whichever row
  built the line.
\<close>

theorem C8_memo_of_first_row:
  assumes "snd (load_journal_entries b df rd) = Inr js" and "j \<in> set js"
  shows "\<exists>key g r0 rs. (key, g) \<in> set (groupby df ''Journal Entry Id'') \<and>
           snd (build_lines b g rd) = Inr j \<and> rows g = r0 # rs \<and>
           (\<forall>l \<in> set (lineList j). memo l \<noteq> None \<and> memo l = r0 ''Description'')"
proof -
  from load_journal_entries_Inr [OF assms(1)]
  have req: "list_all (\<lambda>col. col \<in> set (columns df)) REQUIRED_COLS"
    and all2: "list_all2 (\<lambda>vg j. snd (build_lines b (snd vg) rd) = Inr j)
       (groupby df ''Journal Entry Id'') js"
    by simp_all
  from assms(2) obtain i where i: "i < length js" and ji: "js ! i = j"
    by (auto simp: in_set_conv_nth)
  have len: "length (groupby df ''Journal Entry Id'') = length js"
    using all2 by (rule list_all2_lengthD)
  define vg where "vg = groupby df ''Journal Entry Id'' ! i"
  have vg: "vg \<in> set (groupby df ''Journal Entry Id'')"
    using i len by (simp add: vg_def)
  have bl: "snd (build_lines b (snd vg) rd) = Inr j"
    using list_all2_nthD2 [OF all2 i] ji by (simp add: vg_def)
  have cols: "columns (snd vg) = columns df"
    using vg by (auto simp: groupby_def)
  from req have d: "''Description'' \<in> set (columns (snd vg))"
    by (simp add: cols REQUIRED_COLS_def)
  from bl obtain s where fin: "finish b (snd vg) rd s = Inr j"
    using build_lines_Inr by blast
  then obtain eid where "iloc0 (snd vg) ''Journal Entry Id'' = Inr eid"
    by (auto simp: finish_def exn_bind_Inr_iff)
  then obtain r0 rs where rws: "rows (snd vg) = r0 # rs"
    using iloc0_Inr by blast
  have "memo l \<noteq> None \<and> memo l = r0 ''Description''" if "l \<in> set (lineList j)" for l
  proof -
    from build_lines_memo [OF bl d that] obtain v where
      "iloc0 (snd vg) ''Description'' = Inr v" "memo l = Some v" by blast
    then show ?thesis using rws iloc0_Inr [of "snd vg" "''Description''" v] by auto
  qed
  then have lines: "\<forall>l \<in> set (lineList j). memo l \<noteq> None \<and> memo l = r0 ''Description''"
    by blast
  from vg have "(fst vg, snd vg) \<in> set (groupby df ''Journal Entry Id'')" by simp
  with bl rws lines show ?thesis by blast
qed

theorem C8_memo_of_first_row_witness:
  "\<exists>js j. snd (load_journal_entries ex_builtins
       (ex_frame [ex_row (VStr ''JE1'') (VInt 100) (VStr ''Credit'') (VInt 10) (VStr ''USD''),
                  ex_row (VStr ''JE1'') (VInt 100) (VStr ''Debit'') (VInt 10) (VStr ''USD'')])
       ex_refs) = Inr js \<and> j \<in> set js \<and>
     map memo (lineList j) = [Some (VStr ''rent''), Some (VStr ''rent'')] \<and>
     (\<exists>key g r0 rs. (key, g) \<in> set (groupby
         (ex_frame [ex_row (VStr ''JE1'') (VInt 100) (VStr ''Credit'') (VInt 10) (VStr ''USD''),
                    ex_row (VStr ''JE1'') (VInt 100) (VStr ''Debit'') (VInt 10) (VStr ''USD'')])
         ''Journal Entry Id'') \<and>
        snd (build_lines ex_builtins g ex_refs) = Inr j \<and> rows g = r0 # rs \<and>
        (\<forall>l \<in> set (lineList j). memo l \<noteq> None \<and> memo l = r0 ''Description''))"
proof -
  let ?df = "ex_frame [ex_row (VStr ''JE1'') (VInt 100) (VStr ''Credit'') (VInt 10) (VStr ''USD''),
                  ex_row (VStr ''JE1'') (VInt 100) (VStr ''Debit'') (VInt 10) (VStr ''USD'')]"
  have ev: "map_sum id (map (\<lambda>j. map memo (lineList j)))
      (snd (load_journal_entries ex_builtins ?df ex_refs))
     = Inr [[Some (VStr ''rent''), Some (VStr ''rent'')]]"
    by code_simp
  then obtain js where h: "snd (load_journal_entries ex_builtins ?df ex_refs) = Inr js"
    by (cases "snd (load_journal_entries ex_builtins ?df ex_refs)") auto
  with ev obtain j where js: "js = [j]"
    and m: "map memo (lineList j) = [Some (VStr ''rent''), Some (VStr ''rent'')]"
    by auto
  have jin: "j \<in> set js" by (simp add: js)
  show ?thesis
  proof (rule exI, rule exI, intro conjI)
    show "snd (load_journal_entries ex_builtins ?df ex_refs) = Inr js" by (rule h)
    show "j \<in> set js" by (rule jin)
    show "map memo (lineList j) = [Some (VStr ''rent''), Some (VStr ''rent'')]" by (rule m)
    show "\<exists>key g r0 rs. (key, g) \<in> set (groupby ?df ''Journal Entry Id'') \<and>
        snd (build_lines ex_builtins g ex_refs) = Inr j \<and> rows g = r0 # rs \<and>
        (\<forall>l \<in> set (lineList j). memo l \<noteq> None \<and> memo l = r0 ''Description'')"
      by (rule C8_memo_of_first_row [OF h jin])
  qed
qed

text \<open>
  Claim C9 (dates).  In an entry that \<^verbatim>\<open>build_lines\<close> returns, createdDate and
  tranDate are equal: with a Transaction Date column the group has a first row, and
  both fields are the parsed Transaction Date cell of that first row; without the
  column both are unset.
\<close>

theorem C9_created_date_is_tran_date:
  assumes "snd (build_lines b x rd) = Inr e"
  shows "createdDate e = tranDate e \<and>
     (if ''Transaction Date'' \<in> set (columns x)
      then \<exists>r0 rs v t. rows x = r0 # rs \<and> r0 ''Transaction Date'' = Some v \<and>
             to_datetime b v = Inr t \<and> createdDate e = Some t \<and> tranDate e = Some t
      else createdDate e = None \<and> tranDate e = None)"
proof -
  from assms obtain s where fin: "finish b x rd s = Inr e"
    using build_lines_Inr by blast
  note d = finish_dates [OF fin]
  from d have eq: "createdDate e = tranDate e" by (rule conjunct1)
  show ?thesis
  proof (cases "''Transaction Date'' \<in> set (columns x)")
    case True
    with d obtain v t where v: "iloc0 x ''Transaction Date'' = Inr v"
      and t: "to_datetime b v = Inr t" and c: "createdDate e = Some t"
      by auto
    from iloc0_Inr [OF v] obtain r0 rs where "rows x = r0 # rs"
      and "r0 ''Transaction Date'' = Some v" by blast
    with t c eq True show ?thesis by auto
  next
    case False
    with d eq show ?thesis by auto
  qed
qed

text \<open>
  A group of two rows dated 1 and 2 (nanoseconds): both fields of the entry are the
  timestamp 1 of the first row.
\<close>

theorem C9_created_date_is_tran_date_witness:
  "\<exists>e. snd (build_lines ex_builtins
       (ex_frame
          [(ex_row (VStr ''JE1'') (VInt 100) (VStr ''Credit'') (VInt 10) (VStr ''USD''))
             (''Transaction Date'' \<mapsto> VInt 1),
           (ex_row (VStr ''JE1'') (VInt 100) (VStr ''Debit'') (VInt 10) (VStr ''USD''))
             (''Transaction Date'' \<mapsto> VInt 2)])
       ex_refs) = Inr e \<and>
     createdDate e = Some (Timestamp 1) \<and> tranDate e = Some (Timestamp 1)"
proof -
  let ?r1 = "(ex_row (VStr ''JE1'') (VInt 100) (VStr ''Credit'') (VInt 10) (VStr ''USD''))
             (''Transaction Date'' \<mapsto> VInt 1)"
  let ?r2 = "(ex_row (VStr ''JE1'') (VInt 100) (VStr ''Debit'') (VInt 10) (VStr ''USD''))
             (''Transaction Date'' \<mapsto> VInt 2)"
  let ?x = "ex_frame [?r1, ?r2]"
  have "\<not> isl (snd (build_lines ex_builtins ?x ex_refs))"
    by code_simp
  then obtain e where h: "snd (build_lines ex_builtins ?x ex_refs) = Inr e"
    by (cases "snd (build_lines ex_builtins ?x ex_refs)") auto
  have col: "''Transaction Date'' \<in> set (columns ?x)"
    by (simp add: ex_frame_def ex_columns_def)
  from C9_created_date_is_tran_date [OF h] col obtain r0 rs v t where
    r: "rows ?x = r0 # rs" and v: "r0 ''Transaction Date'' = Some v"
    and t: "to_datetime ex_builtins v = Inr t"
    and c: "createdDate e = Some t" "tranDate e = Some t"
    by auto
  from r have "r0 = ?r1" by (simp add: ex_frame_def)
  with v have "v = VInt 1" by simp
  with t have "t = Timestamp 1" by (simp add: ex_builtins_def ex_to_datetime_def)
  with c h show ?thesis by blast
qed

text \<open>
  Claim C10 (Amount is not required).  Amount is not among the required columns.
  In a frame without an Amount column, a group that has a row whose account resolves
  and whose Posting Type is Credit or Debit is never assembled: \<^verbatim>\<open>build_lines\<close>
  raises.
\<close>

theorem C10_no_amount_column_fails:
  assumes "r \<in> set (rows x)" and "r ''Amount'' = None"
    and "py_eq (row_get r ''Posting Type'') (VStr ''Credit'') \<or>
         py_eq (row_get r ''Posting Type'') (VStr ''Debit'')"
    and "truthy_list (Accounts rd)" and "truthy (row_get r ''Account Number'')"
    and "acct_lookup b rd r \<noteq> []"
  shows "''Amount'' \<notin> set REQUIRED_COLS \<and> (\<exists>e. snd (build_lines b x rd) = Inl e)"
proof -
  obtain f where "iterrows_loop b x rd (rows x) init_st = Inl f"
    using iterrows_loop_fails [OF assms(1) row_body_no_amount [OF assms(2-6)]] by blast
  then have "\<exists>e. snd (build_lines b x rd) = Inl e"
    by (cases f) (simp add: build_lines_def)
  moreover have "''Amount'' \<notin> set REQUIRED_COLS"
    by (simp add: REQUIRED_COLS_def)
  ultimately show ?thesis by blast
qed

text \<open>
  A frame with the eight required columns and no Amount passes the check of the
  columns, and its one Credit row ends the run with KeyError on Amount.
\<close>

theorem C10_no_amount_column_fails_witness:
  "list_all (\<lambda>col. col \<in> set (columns (ex_frame_no_amount
       [(ex_row (VStr ''JE1'') (VInt 100) (VStr ''Credit'') (VInt 10) (VStr ''USD''))
          (''Amount'' := None)]))) REQUIRED_COLS \<and>
   (\<exists>e. snd (build_lines ex_builtins (ex_frame_no_amount
       [(ex_row (VStr ''JE1'') (VInt 100) (VStr ''Credit'') (VInt 10) (VStr ''USD''))
          (''Amount'' := None)]) ex_refs) = Inl e) \<and>
   load_journal_entries ex_builtins (ex_frame_no_amount
       [(ex_row (VStr ''JE1'') (VInt 100) (VStr ''Credit'') (VInt 10) (VStr ''USD''))
          (''Amount'' := None)]) ex_refs = ([], Inl (KeyError ''Amount''))"
proof -
  let ?r = "(ex_row (VStr ''JE1'') (VInt 100) (VStr ''Credit'') (VInt 10) (VStr ''USD''))
          (''Amount'' := None)"
  have 1: "?r \<in> set (rows (ex_frame_no_amount [?r]))" by (simp add: ex_frame_no_amount_def)
  have 2: "?r ''Amount'' = None" by simp
  have 3: "py_eq (row_get ?r ''Posting Type'') (VStr ''Credit'') \<or>
         py_eq (row_get ?r ''Posting Type'') (VStr ''Debit'')"
    by (simp add: row_get_def ex_row_def)
  have 4: "truthy_list (Accounts ex_refs)" by (simp add: ex_refs_def)
  have 5: "truthy (row_get ?r ''Account Number'')" by (simp add: row_get_def ex_row_def)
  have 6: "acct_lookup ex_builtins ex_refs ?r \<noteq> []" by code_simp
  have a: "\<exists>e. snd (build_lines ex_builtins (ex_frame_no_amount [?r]) ex_refs) = Inl e"
    by (rule conjunct2 [OF C10_no_amount_column_fails [OF 1 2 3 4 5 6]])
  have b: "list_all (\<lambda>col. col \<in> set (columns (ex_frame_no_amount [?r]))) REQUIRED_COLS"
    by code_simp
  have c: "load_journal_entries ex_builtins (ex_frame_no_amount [?r]) ex_refs
     = ([], Inl (KeyError ''Amount''))"
    by code_simp
  from a b c show ?thesis by blast
qed

end
